theory Spec2Isabelle
  imports Main
begin

section \<open>Text\<close>

text \<open>
  A Python \<open>str\<close> is a sequence of Unicode code points, so text is a list of code
  points here: \<open>len\<close>, slicing and indexing count code points. An ASCII literal of the
  source is written \<open>ascii ''...''\<close>; the other characters the source names are given
  by their code points (pound sign 163, euro sign 8364, en dash 8211, em dash 8212).

  The class \<open>\d\<close> of Python's \<open>re\<close> on a \<open>str\<close> pattern is the set of Unicode
  decimal digits, which depends on the Unicode tables of the interpreter. It is a
  parameter \<open>D\<close> of every function that uses a regular expression; \<open>ascii_digit\<close>
  is what every such table says on ASCII text.
\<close>

type_synonym codepoint = nat
type_synonym ustr = "codepoint list"

definition ascii :: "string \<Rightarrow> ustr" where
  "ascii s = map of_char s"

definition ascii_digit :: "codepoint \<Rightarrow> bool" where
  "ascii_digit c \<longleftrightarrow> 48 \<le> c \<and> c \<le> 57"

text \<open>\<open>str.isspace\<close> of one character, the set \<open>str.strip()\<close> removes.\<close>

definition isspace :: "codepoint \<Rightarrow> bool" where
  "isspace c \<longleftrightarrow>
     (9 \<le> c \<and> c \<le> 13) \<or> (28 \<le> c \<and> c \<le> 32) \<or> c = 133 \<or> c = 160 \<or> c = 5760 \<or>
     (8192 \<le> c \<and> c \<le> 8202) \<or> c = 8232 \<or> c = 8233 \<or> c = 8239 \<or> c = 8287 \<or> c = 12288"

definition lstrip :: "ustr \<Rightarrow> ustr" where
  "lstrip s = dropWhile isspace s"

definition rstrip :: "ustr \<Rightarrow> ustr" where
  "rstrip s = rev (dropWhile isspace (rev s))"

definition strip :: "ustr \<Rightarrow> ustr" where
  "strip s = rstrip (lstrip s)"

section \<open>Caption parsing\<close>

text \<open>
  \<^verbatim>\<open>
  name = "Untitled Product"
  price = None
  if caption:
      price_match = re.search(r'[\$\u00a3\u20ac]?(\d+(?:\.\d{2})?)', caption)
      if price_match:
          price = float(price_match.group(1))
          name = caption[:price_match.start()].strip() or "Untitled Product"
          name = re.sub(r'[-\u2013\u2014:]$', '', name).strip()
      else:
          name = caption[:50]
  \<close>
  The same lines stand in \<open>handle_image_message\<close> (webhook.py) and in
  \<open>upload_product_via_whatsapp\<close> (products.py). The price is kept as the text of
  group 1, the token that the source hands to \<open>float\<close>.
\<close>

definition currency_symbol :: "codepoint \<Rightarrow> bool" where
  "currency_symbol c \<longleftrightarrow> c = 36 \<or> c = 163 \<or> c = 8364"

definition separator :: "codepoint \<Rightarrow> bool" where
  "separator c \<longleftrightarrow> c = 45 \<or> c = 8211 \<or> c = 8212 \<or> c = 58"

text \<open>
  \<open>(\d+(?:\.\d{2})?)\<close> anchored at the head of \<open>s\<close>: the longest run of digits, which
  must not be empty, and then a dot and two digits when they follow. The result is
  group 1.
\<close>

definition match_number :: "(codepoint \<Rightarrow> bool) \<Rightarrow> ustr \<Rightarrow> ustr option" where
  "match_number D s =
     (let ds = takeWhile D s; r = dropWhile D s in
      if ds = [] then None
      else (case r of
              d # a # b # _ \<Rightarrow> if d = 46 \<and> D a \<and> D b then Some (ds @ [d, a, b]) else Some ds
            | _ \<Rightarrow> Some ds))"

text \<open>
  The whole pattern anchored at the head of \<open>s\<close>. The optional currency symbol is
  greedy: it is taken when the rest then matches, and given up otherwise.
\<close>

definition match_price :: "(codepoint \<Rightarrow> bool) \<Rightarrow> ustr \<Rightarrow> ustr option" where
  "match_price D s =
     (case s of
        [] \<Rightarrow> None
      | c # r \<Rightarrow>
          if currency_symbol c then
            (case match_number D r of Some g \<Rightarrow> Some g | None \<Rightarrow> match_number D s)
          else match_number D s)"

text \<open>
  \<open>re.search\<close>: the leftmost position at which the pattern matches. The result is
  \<open>(price_match.start(), price_match.group(1))\<close>; \<open>i\<close> is the position of the head
  of the text still to scan.
\<close>

fun re_search :: "(codepoint \<Rightarrow> bool) \<Rightarrow> ustr \<Rightarrow> nat \<Rightarrow> (nat \<times> ustr) option" where
  "re_search D [] i = None"
| "re_search D (c # r) i =
     (case match_price D (c # r) of
        Some g \<Rightarrow> Some (i, g)
      | None \<Rightarrow> re_search D r (Suc i))"

text \<open>
  \<open>re.sub\<close> with the pattern \<open>[-\u2013\u2014:]$\<close> and the empty replacement. Without the MULTILINE flag \<open>$\<close> matches at the
  end of the text and just before a line feed that ends the text, so one character at
  most is removed.
\<close>

definition sub_trailing_separator :: "ustr \<Rightarrow> ustr" where
  "sub_trailing_separator s =
     (if s \<noteq> [] \<and> separator (last s) then butlast s
      else if 2 \<le> length s \<and> last s = 10 \<and> separator (last (butlast s))
           then butlast (butlast s) @ [10]
      else s)"

definition untitled :: ustr where
  "untitled = ascii ''Untitled Product''"

definition parse_caption :: "(codepoint \<Rightarrow> bool) \<Rightarrow> ustr option \<Rightarrow> ustr \<times> ustr option" where
  "parse_caption D caption =
     (case caption of
        None \<Rightarrow> (untitled, None)
      | Some c \<Rightarrow>
          if c = [] then (untitled, None)
          else (case re_search D c 0 of
                  Some (start, g) \<Rightarrow>
                    (let name = strip (take start c);
                         name = (if name = [] then untitled else name);
                         name = strip (sub_trailing_separator name)
                     in (name, Some g))
                | None \<Rightarrow> (take 50 c, None)))"

subsection \<open>The caption rule in the specification's words\<close>

text \<open>
  These definitions follow the specification, not the source. A price-like token is an
  optional currency symbol, digits, and an optional group of a dot and two digits;
  \<open>spec_find_token\<close> gives the text before the first such token and the numeric part
  of the token. The first token starts at the first digit of the caption, or at a
  currency symbol that stands right before it.
\<close>

definition decimal_group :: "(codepoint \<Rightarrow> bool) \<Rightarrow> ustr \<Rightarrow> bool" where
  "decimal_group D g = (case g of [d, a, b] \<Rightarrow> d = 46 \<and> D a \<and> D b | _ \<Rightarrow> False)"

definition number_token :: "(codepoint \<Rightarrow> bool) \<Rightarrow> ustr \<Rightarrow> ustr" where
  "number_token D s =
     (let after = dropWhile D s
      in takeWhile D s @ (if decimal_group D (take 3 after) then take 3 after else []))"

definition spec_find_token :: "(codepoint \<Rightarrow> bool) \<Rightarrow> ustr \<Rightarrow> (ustr \<times> ustr) option" where
  "spec_find_token D c =
     (let pre = takeWhile (\<lambda>x. \<not> D x) c; rest = dropWhile (\<lambda>x. \<not> D x) c
      in if rest = [] then None
         else Some (if pre \<noteq> [] \<and> currency_symbol (last pre) then butlast pre else pre,
                    number_token D rest))"

text \<open>
  The name as the claim words it (\<open>claimed_name\<close>: whitespace trimmed, every
  trailing separator trimmed, the default when nothing is left) and as the source
  computes it (\<open>amended_name\<close>: at most one trailing separator goes).
\<close>

definition claimed_name :: "ustr \<Rightarrow> ustr" where
  "claimed_name pre =
     (let n = lstrip (rev (dropWhile (\<lambda>c. isspace c \<or> separator c) (rev pre)))
      in if n = [] then untitled else n)"

definition amended_name :: "ustr \<Rightarrow> ustr" where
  "amended_name pre =
     (let p = strip pre;
          n = (if p \<noteq> [] \<and> separator (last p) then rstrip (butlast p) else p)
      in if n = [] then untitled else n)"

definition caption_spec ::
  "(ustr \<Rightarrow> ustr) \<Rightarrow> (codepoint \<Rightarrow> bool) \<Rightarrow> ustr option \<Rightarrow> ustr \<times> ustr option" where
  "caption_spec trim D caption =
     (case caption of
        None \<Rightarrow> (untitled, None)
      | Some c \<Rightarrow>
          if c = [] then (untitled, None)
          else (case spec_find_token D c of
                  Some (pre, tok) \<Rightarrow> (trim pre, Some tok)
                | None \<Rightarrow> (take 50 c, None)))"

definition lone_separator :: "ustr \<Rightarrow> bool" where
  "lone_separator p = (case p of [x] \<Rightarrow> separator x | _ \<Rightarrow> False)"

definition lone_separator_before_price :: "(codepoint \<Rightarrow> bool) \<Rightarrow> ustr option \<Rightarrow> bool" where
  "lone_separator_before_price D caption =
     (case caption of
        None \<Rightarrow> False
      | Some c \<Rightarrow> (case spec_find_token D c of
                    Some (pre, tok) \<Rightarrow> lone_separator (strip pre)
                  | None \<Rightarrow> False))"

section \<open>Errors\<close>

text \<open>
  The HTTP errors the endpoints raise and the Python exceptions that escape a handler.
\<close>

datatype error =
    HTTP_404_NOT_FOUND
  | HTTP_410_GONE
  | HTTP_500_INTERNAL_SERVER_ERROR
  | UnicodeEncodeError
  | AttributeError
  | IntegrityError
  | TypeError
  | DataError

section \<open>Phone numbers and deep links (services/whatsapp.py)\<close>

text \<open>
  \<open>_format_phone_number\<close>: \<open>re.sub(r'\D', '', phone)\<close> keeps the digits, and a
  result of exactly 10 digits gets \<open>"1"\<close> in front.
\<close>

definition format_phone_number :: "(codepoint \<Rightarrow> bool) \<Rightarrow> ustr \<Rightarrow> ustr" where
  "format_phone_number D phone =
     (let digits = filter D phone
      in if length digits = 10 then ascii ''1'' @ digits else digits)"

text \<open>
  \<open>urllib.parse.quote(message)\<close> with its defaults: the text is encoded in UTF-8
  (strict, so a surrogate code point raises \<open>UnicodeEncodeError\<close>), the bytes of
  letters, digits, \<open>_.-~\<close> and \<open>/\<close> stay, every other byte becomes \<open>%XX\<close> in
  upper-case hexadecimal.
\<close>

definition utf8_encode :: "codepoint \<Rightarrow> nat list option" where
  "utf8_encode c =
     (if c < 128 then Some [c]
      else if c < 2048 then Some [192 + c div 64, 128 + c mod 64]
      else if c < 65536 then
        (if 55296 \<le> c \<and> c \<le> 57343 then None
         else Some [224 + c div 4096, 128 + c div 64 mod 64, 128 + c mod 64])
      else if c < 1114112 then
        Some [240 + c div 262144, 128 + c div 4096 mod 64, 128 + c div 64 mod 64, 128 + c mod 64]
      else None)"

definition always_safe :: "nat \<Rightarrow> bool" where
  "always_safe b \<longleftrightarrow>
     (65 \<le> b \<and> b \<le> 90) \<or> (97 \<le> b \<and> b \<le> 122) \<or> (48 \<le> b \<and> b \<le> 57) \<or>
     b = 95 \<or> b = 46 \<or> b = 45 \<or> b = 126"

definition hex_digit :: "nat \<Rightarrow> codepoint" where
  "hex_digit n = (if n < 10 then 48 + n else 55 + n)"

definition quote_byte :: "nat \<Rightarrow> ustr" where
  "quote_byte b =
     (if always_safe b \<or> b = 47 then [b] else [37, hex_digit (b div 16), hex_digit (b mod 16)])"

fun quote :: "ustr \<Rightarrow> error + ustr" where
  "quote [] = Inr []"
| "quote (c # s) =
     (case utf8_encode c of
        None \<Rightarrow> Inl UnicodeEncodeError
      | Some bs \<Rightarrow>
          (case quote s of
             Inl e \<Rightarrow> Inl e
           | Inr q \<Rightarrow> Inr (concat (map quote_byte bs) @ q)))"

text \<open>
  \<open>generate_whatsapp_deep_link\<close>: the query part is added under \<open>if message:\<close>,
  that is for a message that is neither \<open>None\<close> nor empty.
\<close>

definition generate_whatsapp_deep_link ::
  "(codepoint \<Rightarrow> bool) \<Rightarrow> ustr \<Rightarrow> ustr option \<Rightarrow> error + ustr" where
  "generate_whatsapp_deep_link D phone_number message =
     (let formatted_phone = format_phone_number D phone_number in
      case message of
        None \<Rightarrow> Inr (ascii ''https://wa.me/'' @ formatted_phone)
      | Some m \<Rightarrow>
          if m = [] then Inr (ascii ''https://wa.me/'' @ formatted_phone)
          else (case quote m of
                  Inl e \<Rightarrow> Inl e
                | Inr encoded_message \<Rightarrow>
                    Inr (ascii ''https://wa.me/'' @ formatted_phone @ ascii ''?text='' @
                         encoded_message)))"


section \<open>Slug draws (routers/sellers.py)\<close>

text \<open>
  \<open>generate_catalog_slug\<close> joins 8 results of \<open>secrets.choice\<close> over
  \<open>string.ascii_lowercase + string.digits\<close>. The entropy source is a sequence
  \<open>rand\<close> of numbers; the choice number \<open>k\<close> takes the character at index
  \<open>rand k mod 36\<close>, as \<open>secrets.choice\<close> indexes with a number below the length.
  The handler \<open>auto_register_seller\<close> has the same function under the name
  \<open>generate_slug\<close>.
\<close>

definition alphabet :: ustr where
  "alphabet = ascii ''abcdefghijklmnopqrstuvwxyz0123456789''"

definition generate_catalog_slug :: "(nat \<Rightarrow> nat) \<Rightarrow> nat \<Rightarrow> ustr" where
  "generate_catalog_slug rand k = map (\<lambda>i. alphabet ! (rand (k + i) mod length alphabet)) [0..<8]"

section \<open>Data model (models.py)\<close>

text \<open>
  Identifiers are natural numbers and times are integers (microseconds of a naive UTC
  \<open>datetime\<close>). A listing's identifier is its key in the store, so \<open>product\<close> has
  no field for it. The columns that the database fills and no operation here reads
  (\<open>created_at\<close>, \<open>updated_at\<close>, \<open>last_login\<close>) are left out, and so is the
  \<open>interests\<close> table. The price is the decimal text that intake hands to \<open>float\<close>.
\<close>

type_synonym uuid = nat
type_synonym datetime = int

definition timedelta_seconds :: "int \<Rightarrow> int" where
  "timedelta_seconds n = n * 1000000"

record seller =
  s_id :: uuid
  phone_number :: ustr
  s_name :: "ustr option"
  whatsapp_chat_id :: "ustr option"
  catalog_slug :: ustr
  s_is_active :: bool

record product =
  p_seller_id :: uuid
  name :: ustr
  description :: "ustr option"
  price :: "ustr option"
  currency :: ustr
  image_url :: ustr
  image_path :: ustr
  is_active :: bool
  removed_at :: "datetime option"
  can_undo_until :: "datetime option"

datatype action_kind =
    SELLER_REGISTERED
  | PRODUCT_UPLOADED
  | PRODUCT_CONFIRMED
  | PRODUCT_CANCELLED
  | PRODUCT_REMOVED
  | PRODUCT_RESTORED
  | BUYER_INTEREST
  | CATALOG_VIEWED
  | WHATSAPP_MESSAGE_SENT
  | WHATSAPP_MESSAGE_RECEIVED
  | ERROR_OCCURRED

text \<open>
  \<open>action_data\<close> is the dictionary that \<open>json.dumps\<close> serialises, as a list of
  keys and values.
\<close>

datatype json = JNull | JStr ustr | JNum ustr | JInt nat | JTime datetime

record action_log =
  action_type :: action_kind
  seller_id :: "uuid option"
  product_id :: "uuid option"
  interest_id :: "uuid option"
  action_data :: "(string \<times> json) list"
  whatsapp_message_id :: "ustr option"

text \<open>
  Outbound messages. The texts of the source are long constants; a \<open>notice\<close> names
  the text and carries the values the source formats into it.
\<close>

datatype button = ConfirmAdd uuid | CancelAdd uuid

datatype notice =
    InvalidProductId
  | ProductNotFound
  | ProductAdded ustr ustr
  | NotAdded ustr
  | CouldNotProcess
  | CouldNotDownload
  | FailedToProcess
  | UploadCaption ustr "ustr option"
  | UploadPrompt ustr
  | Welcome "ustr option" ustr

datatype message =
    Text ustr notice
  | Image ustr ustr notice
  | Buttons ustr notice "button list"

text \<open>
  The world is what the operations read and write: the two tables, the audit table, the
  image files on disk, the messages the platform accepted, and the console.
\<close>

record world =
  sellers :: "seller list"
  products :: "uuid \<Rightarrow> product option"
  action_logs :: "action_log list"
  files :: "ustr set"
  outbox :: "message list"
  stdout :: "ustr list"

text \<open>
  The environment is what the operations cannot decide: the Unicode digit class and the
  value of a digit, whether the audit store keeps a record (add, commit and refresh go
  through), whether the platform accepts a message and the identifier it returns, the
  URL of a media identifier (empty when the lookup fails), whether a download and the
  removal of a file succeed, and the configured catalog URL.

  The module that configures the database is not among the sources, so three properties
  of the store are parameters too. On PostgreSQL, which models.py is written for (its
  keys are PostgreSQL \<open>UUID\<close> columns), all three hold; on SQLite in process, with one
  connection shared by every session, none does.
  \<^item> \<open>isolated_sessions\<close>: a session does not see a row that another session has
    flushed and not yet committed.
  \<^item> \<open>aware_datetimes\<close>: a \<open>DateTime(timezone=True)\<close> column is read back
    as a timezone-aware \<open>datetime\<close>.
  \<^item> \<open>numeric_checked\<close>: a \<open>Numeric(12, 2)\<close> column refuses a value of more
    than ten integer digits.
\<close>

record env =
  isdecimal :: "codepoint \<Rightarrow> bool"
  decimal_value :: "codepoint \<Rightarrow> nat"
  isolated_sessions :: bool
  aware_datetimes :: bool
  numeric_checked :: bool
  persist_ok :: "action_log \<Rightarrow> bool"
  delivers :: "message \<Rightarrow> bool"
  wamid :: "message \<Rightarrow> ustr option"
  media_url :: "ustr \<Rightarrow> ustr"
  download_ok :: "ustr \<Rightarrow> bool"
  unlink_ok :: "ustr \<Rightarrow> bool"
  CATALOG_BASE_URL :: ustr

section \<open>The audit recorder (services/logging.py)\<close>

text \<open>
  \<open>log_action\<close> builds the record, adds it and commits in a session of its own,
  inside \<open>try\<close>; on any exception it rolls back, prints
  \<open>Failed to log action\<close> and returns \<open>None\<close>. \<open>entry\<close> is the call of the
  \<open>ActionLog\<close> constructor.
\<close>

definition entry ::
  "action_kind \<Rightarrow> uuid option \<Rightarrow> uuid option \<Rightarrow> (string \<times> json) list \<Rightarrow> ustr option \<Rightarrow> action_log" where
  "entry k s p d m =
     \<lparr>action_type = k, seller_id = s, product_id = p, interest_id = None, action_data = d,
      whatsapp_message_id = m\<rparr>"

text \<open>The \<open>except\<close> branch of \<open>log_action\<close>: nothing is stored, the failure is printed.\<close>

definition write_refused :: "world \<Rightarrow> world" where
  "write_refused w = w\<lparr>stdout := stdout w @ [ascii ''Failed to log action'']\<rparr>"

definition log_action :: "env \<Rightarrow> action_log \<Rightarrow> world \<Rightarrow> action_log option \<times> world" where
  "log_action e log_entry w =
     (if persist_ok e log_entry
      then (Some log_entry, w\<lparr>action_logs := action_logs w @ [log_entry]\<rparr>)
      else (None, write_refused w))"

text \<open>
  \<^verbatim>\<open>
  def can_undo(self) -> bool:
      if self.is_active or not self.can_undo_until:
          return False
      return datetime.utcnow() < self.can_undo_until
  \<close>
  \<open>utcnow\<close> is the clock reading of the call. \<open>datetime.utcnow()\<close> is naive, and
  the column \<open>can_undo_until\<close> is declared \<open>DateTime(timezone=True)\<close>: where the
  store reads it back timezone-aware, the comparison of a naive with an aware
  \<open>datetime\<close> raises \<open>TypeError\<close>. The first line returns before the comparison.
\<close>

definition can_undo :: "env \<Rightarrow> product \<Rightarrow> datetime \<Rightarrow> error + bool" where
  "can_undo e p utcnow =
     (if is_active p \<or> can_undo_until p = None then Inr False
      else if aware_datetimes e then Inl TypeError
      else (case can_undo_until p of Some t \<Rightarrow> Inr (utcnow < t) | None \<Rightarrow> Inr False))"

section \<open>Prices\<close>

text \<open>
  The price of a listing is kept as the token that intake hands to \<open>float\<close>: digits,
  and then perhaps a dot and two digits. Two tests of the source read its value.
  \<open>if price\<close> (and \<open>if target.price\<close>) is false for a missing price and for the
  value zero, that is for a token whose digits are all zero; \<open>truthy_price\<close> is the
  price where the test holds. A value of \<open>10 ^ 10\<close> or more, decided by the digits
  before the dot, does not fit \<open>Numeric(12, 2)\<close>.
\<close>

definition price_is_zero :: "env \<Rightarrow> ustr \<Rightarrow> bool" where
  "price_is_zero e t = list_all (\<lambda>c. decimal_value e c = 0) (filter (isdecimal e) t)"

definition truthy_price :: "env \<Rightarrow> ustr option \<Rightarrow> ustr option" where
  "truthy_price e pr =
     (case pr of None \<Rightarrow> None | Some t \<Rightarrow> if price_is_zero e t then None else Some t)"

definition integer_part :: "env \<Rightarrow> ustr \<Rightarrow> nat" where
  "integer_part e t = foldl (\<lambda>n c. 10 * n + decimal_value e c) 0 (takeWhile (isdecimal e) t)"

definition price_overflows :: "env \<Rightarrow> ustr option \<Rightarrow> bool" where
  "price_overflows e pr =
     (case pr of None \<Rightarrow> False | Some t \<Rightarrow> 10000000000 \<le> integer_part e t)"

section \<open>The hooks of the listing table (models.py)\<close>

text \<open>
  The \<open>after_insert\<close> hook of \<open>Product\<close> calls \<open>log_action\<close> with the new
  listing's identifier. The ORM runs it inside the flush that \<open>db.commit()\<close> starts,
  after the row is sent and before the transaction is committed, and \<open>log_action\<close>
  writes through a session of its own. Where sessions are isolated that session does
  not see the new row, the foreign key of \<open>action_logs.product_id\<close> refuses the
  record, and \<open>log_action\<close> takes its \<open>except\<close> branch. The record carries the
  price token where the source carries \<open>str(target.price)\<close>.

  The \<open>after_update\<close> hook \<open>log_product_update\<close> logs only for an instance that
  carries \<open>_was_removed\<close> or \<open>_was_restored\<close>; no code sets either attribute, so
  the hook writes nothing and has no counterpart here.
\<close>

definition json_opt :: "ustr option \<Rightarrow> (ustr \<Rightarrow> json) \<Rightarrow> json" where
  "json_opt v f = (case v of None \<Rightarrow> JNull | Some x \<Rightarrow> f x)"

definition log_product_insert :: "env \<Rightarrow> uuid \<Rightarrow> product \<Rightarrow> world \<Rightarrow> world" where
  "log_product_insert e target_id target w =
     (if isolated_sessions e then write_refused w
      else snd (log_action e
             (entry PRODUCT_UPLOADED (Some (p_seller_id target)) (Some target_id)
                [(''product_name'', JStr (name target)),
                 (''price'', json_opt (truthy_price e (price target)) JStr)]
                None) w))"

section \<open>Operations\<close>

subsection \<open>Outbound messages (services/whatsapp.py)\<close>

text \<open>
  A message that the platform accepts is put in the outbox and logged as
  WHATSAPP_MESSAGE_SENT. A text message that fails with \<open>httpx.HTTPError\<close> is logged
  as ERROR_OCCURRED; an image or a button message that fails is not logged.
\<close>

definition send_text_message :: "env \<Rightarrow> ustr \<Rightarrow> notice \<Rightarrow> world \<Rightarrow> bool \<times> world" where
  "send_text_message e to body w =
     (let formatted_phone = format_phone_number (isdecimal e) to;
          m = Text formatted_phone body
      in if delivers e m
         then (True,
               snd (log_action e
                      (entry WHATSAPP_MESSAGE_SENT None None
                         [(''to'', JStr formatted_phone), (''message_type'', JStr (ascii ''text''))]
                         (wamid e m))
                      (w\<lparr>outbox := outbox w @ [m]\<rparr>)))
         else (False,
               snd (log_action e
                      (entry ERROR_OCCURRED None None [(''phone'', JStr formatted_phone)] None)
                      w)))"

definition send_image_message ::
  "env \<Rightarrow> ustr \<Rightarrow> ustr \<Rightarrow> notice \<Rightarrow> world \<Rightarrow> bool \<times> world" where
  "send_image_message e to url caption w =
     (let formatted_phone = format_phone_number (isdecimal e) to;
          m = Image formatted_phone url caption
      in if delivers e m
         then (True,
               snd (log_action e
                      (entry WHATSAPP_MESSAGE_SENT None None
                         [(''to'', JStr formatted_phone), (''message_type'', JStr (ascii ''image'')),
                          (''image_url'', JStr url)]
                         (wamid e m))
                      (w\<lparr>outbox := outbox w @ [m]\<rparr>)))
         else (False, w))"

definition send_interactive_buttons ::
  "env \<Rightarrow> ustr \<Rightarrow> notice \<Rightarrow> button list \<Rightarrow> world \<Rightarrow> bool \<times> world" where
  "send_interactive_buttons e to body buttons w =
     (let formatted_phone = format_phone_number (isdecimal e) to;
          m = Buttons formatted_phone body (take 3 buttons)
      in if delivers e m
         then (True,
               snd (log_action e
                      (entry WHATSAPP_MESSAGE_SENT None None
                         [(''to'', JStr formatted_phone),
                          (''message_type'', JStr (ascii ''interactive_buttons'')),
                          (''button_count'', JInt (length buttons))]
                         (wamid e m))
                      (w\<lparr>outbox := outbox w @ [m]\<rparr>)))
         else (False, w))"

definition send_upload_confirmation ::
  "env \<Rightarrow> ustr \<Rightarrow> ustr \<Rightarrow> uuid \<Rightarrow> ustr \<Rightarrow> ustr option \<Rightarrow> world \<Rightarrow> bool \<times> world" where
  "send_upload_confirmation e to product_name pid url price_str w =
     (case send_image_message e to url (UploadCaption product_name price_str) w of
        (image_result, w1) \<Rightarrow>
          if \<not> image_result then (image_result, w1)
          else send_interactive_buttons e to (UploadPrompt product_name)
                 [ConfirmAdd pid, CancelAdd pid] w1)"

definition send_welcome_message ::
  "env \<Rightarrow> ustr \<Rightarrow> ustr option \<Rightarrow> ustr \<Rightarrow> world \<Rightarrow> bool \<times> world" where
  "send_welcome_message e to seller_name catalog_url w =
     send_text_message e to (Welcome seller_name catalog_url) w"

definition send_product_added_confirmation ::
  "env \<Rightarrow> ustr \<Rightarrow> ustr \<Rightarrow> ustr \<Rightarrow> world \<Rightarrow> bool \<times> world" where
  "send_product_added_confirmation e to product_name catalog_url w =
     send_text_message e to (ProductAdded product_name catalog_url) w"

subsection \<open>Store access\<close>

definition seller_by_phone :: "world \<Rightarrow> ustr \<Rightarrow> seller option" where
  "seller_by_phone w phone = find (\<lambda>s. phone_number s = phone) (sellers w)"

definition seller_by_id :: "world \<Rightarrow> uuid \<Rightarrow> seller option" where
  "seller_by_id w sid = find (\<lambda>s. s_id s = sid) (sellers w)"

definition seller_by_slug :: "seller list \<Rightarrow> ustr \<Rightarrow> seller option" where
  "seller_by_slug ss slug = find (\<lambda>s. catalog_slug s = slug) ss"

text \<open>
  \<open>db.add(product); db.commit()\<close>. The insert fails, and nothing is stored, when
  the price does not fit its column (on a store that checks it) or when the primary key
  is taken; the exception leaves the handler. Otherwise the flush runs the
  \<open>after_insert\<close> hook and the commit stores the row.
\<close>

definition insert_product :: "env \<Rightarrow> uuid \<Rightarrow> product \<Rightarrow> world \<Rightarrow> error + world" where
  "insert_product e new_id p w =
     (if numeric_checked e \<and> price_overflows e (price p) then Inl DataError
      else (case products w new_id of
              Some other \<Rightarrow> Inl IntegrityError
            | None \<Rightarrow>
                Inr (log_product_insert e new_id p
                       (w\<lparr>products := (products w)(new_id \<mapsto> p)\<rparr>))))"

text \<open>
  \<open>db.delete(product); db.commit()\<close>. The relationship \<open>Product.action_logs\<close>
  is declared with \<open>cascade="all, delete-orphan"\<close>, so the ORM deletes the audit
  records that name the listing together with it.
\<close>

definition delete_product :: "uuid \<Rightarrow> world \<Rightarrow> world" where
  "delete_product pid w =
     w\<lparr>products := (products w)(pid := None),
       action_logs := filter (\<lambda>l. product_id l \<noteq> Some pid) (action_logs w)\<rparr>"

text \<open>
  \<^verbatim>\<open>
  try:
      if os.path.exists(product.image_path):
          os.remove(product.image_path)
  except Exception:
      pass
  \<close>
\<close>

definition remove_image :: "env \<Rightarrow> ustr \<Rightarrow> world \<Rightarrow> world" where
  "remove_image e path w =
     (if path \<in> files w \<and> unlink_ok e path then w\<lparr>files := files w - {path}\<rparr> else w)"

text \<open>
  \<open>db.add(seller); db.commit()\<close> under the unique constraints of \<open>sellers\<close>:
  the key, the phone number, the catalog slug and the chat identifier.
\<close>

definition insert_seller :: "seller \<Rightarrow> world \<Rightarrow> error + world" where
  "insert_seller s w =
     (if list_ex (\<lambda>t. s_id t = s_id s \<or> phone_number t = phone_number s \<or>
                       catalog_slug t = catalog_slug s \<or>
                       (whatsapp_chat_id s \<noteq> None \<and> whatsapp_chat_id t = whatsapp_chat_id s))
           (sellers w)
      then Inl IntegrityError
      else Inr (w\<lparr>sellers := sellers w @ [s]\<rparr>))"

subsection \<open>Product endpoints (routers/products.py)\<close>

text \<open>
  \<open>confirm_product_upload\<close>: the listing is looked up by its identifier alone.
  Confirming assigns \<open>is_active = True\<close>, commits, logs and sends the notice to the
  seller (\<open>seller.catalog_slug\<close> raises \<open>AttributeError\<close> when the seller row is
  missing). Cancelling removes the image file, deletes the listing, commits and logs
  with the seller reference only.
\<close>

definition confirm_product_upload ::
  "env \<Rightarrow> uuid \<Rightarrow> bool \<Rightarrow> world \<Rightarrow> (error + unit) \<times> world" where
  "confirm_product_upload e pid confirmed w =
     (case products w pid of
        None \<Rightarrow> (Inl HTTP_404_NOT_FOUND, w)
      | Some p \<Rightarrow>
          (let sel = seller_by_id w (p_seller_id p) in
           if confirmed then
             (let w1 = w\<lparr>products := (products w)(pid \<mapsto> p\<lparr>is_active := True\<rparr>)\<rparr>;
                  w2 = snd (log_action e
                         (entry PRODUCT_CONFIRMED (Some (p_seller_id p)) (Some pid)
                            [(''product_name'', JStr (name p))] None) w1)
              in case sel of
                   None \<Rightarrow> (Inl AttributeError, w2)
                 | Some s \<Rightarrow>
                     (Inr (),
                      snd (send_product_added_confirmation e (phone_number s) (name p)
                             (CATALOG_BASE_URL e @ ascii ''/'' @ catalog_slug s) w2)))
           else
             (let w1 = remove_image e (image_path p) w;
                  w2 = delete_product pid w1;
                  w3 = snd (log_action e
                         (entry PRODUCT_CANCELLED (map_option s_id sel) None
                            [(''product_name'', JStr (name p))] None) w2)
              in (Inr (), w3))))"

text \<open>
  The loop of \<open>remove_products\<close>. \<open>undo_window\<close> is computed once before the
  loop; \<open>utcnow_at pid\<close> is the reading of \<open>datetime.utcnow()\<close> in the body that
  runs for \<open>pid\<close>. A listing changed in an earlier round is seen as changed by the
  query of a later round.
\<close>

fun remove_loop ::
  "env \<Rightarrow> datetime \<Rightarrow> (uuid \<Rightarrow> datetime) \<Rightarrow> uuid list \<Rightarrow> world \<times> nat \<Rightarrow> world \<times> nat" where
  "remove_loop e undo_window utcnow_at [] (w, removed_count) = (w, removed_count)"
| "remove_loop e undo_window utcnow_at (pid # rest) (w, removed_count) =
     (case products w pid of
        None \<Rightarrow> remove_loop e undo_window utcnow_at rest (w, removed_count)
      | Some p \<Rightarrow>
          if is_active p then
            (let p' = p\<lparr>is_active := False, removed_at := Some (utcnow_at pid),
                        can_undo_until := Some undo_window\<rparr>;
                 w1 = w\<lparr>products := (products w)(pid \<mapsto> p')\<rparr>;
                 w2 = snd (log_action e
                        (entry PRODUCT_REMOVED (Some (p_seller_id p')) (Some pid)
                           [(''product_name'', JStr (name p')), (''undo_until'', JTime undo_window)]
                           None) w1)
             in remove_loop e undo_window utcnow_at rest (w2, removed_count + 1))
          else remove_loop e undo_window utcnow_at rest (w, removed_count))"

definition remove_products ::
  "env \<Rightarrow> datetime \<Rightarrow> (uuid \<Rightarrow> datetime) \<Rightarrow> uuid list \<Rightarrow> world \<Rightarrow> (error + nat) \<times> world" where
  "remove_products e utcnow utcnow_at product_ids w =
     (let undo_window = utcnow + timedelta_seconds 30 in
      case remove_loop e undo_window utcnow_at product_ids (w, 0) of
        (w', removed_count) \<Rightarrow> (Inr removed_count, w'))"

text \<open>
  \<open>restore_product\<close>: the query asks for the identifier and \<open>is_active == False\<close>;
  no row is 404, an exception of \<open>can_undo\<close> leaves the endpoint, a row that
  \<open>can_undo\<close> refuses is 410, and only then are the three fields assigned.
\<close>

definition restore_product ::
  "env \<Rightarrow> datetime \<Rightarrow> uuid \<Rightarrow> world \<Rightarrow> (error + product) \<times> world" where
  "restore_product e utcnow pid w =
     (case products w pid of
        None \<Rightarrow> (Inl HTTP_404_NOT_FOUND, w)
      | Some p \<Rightarrow>
          if is_active p then (Inl HTTP_404_NOT_FOUND, w)
          else
            (case can_undo e p utcnow of
               Inl err \<Rightarrow> (Inl err, w)
             | Inr undoable \<Rightarrow>
                 if \<not> undoable then (Inl HTTP_410_GONE, w)
                 else
                   (let p' = p\<lparr>is_active := True, removed_at := None, can_undo_until := None\<rparr>;
                        w1 = w\<lparr>products := (products w)(pid \<mapsto> p')\<rparr>;
                        w2 = snd (log_action e
                               (entry PRODUCT_RESTORED (Some (p_seller_id p')) (Some pid)
                                  [(''product_name'', JStr (name p'))] None) w1)
                    in (Inr p', w2))))"

text \<open>
  The constructor call of both intake paths: the listing is created inactive, and the
  two timestamps take the column default \<open>NULL\<close>.
\<close>

definition new_product :: "uuid \<Rightarrow> ustr \<Rightarrow> ustr option \<Rightarrow> ustr option \<Rightarrow> ustr \<Rightarrow> ustr \<Rightarrow> product" where
  "new_product sid nm descr pr url path =
     \<lparr>p_seller_id = sid, name = nm, description = descr, price = pr, currency = ascii ''USD'',
      image_url = url, image_path = path, is_active = False, removed_at = None,
      can_undo_until = None\<rparr>"

text \<open>
  Intake by the endpoint. \<open>new_id\<close>, \<open>file_path\<close> and \<open>local_image_url\<close> are
  the identifier and the file names that \<open>uuid4\<close> gives the new listing. The prompt
  shows the price under \<open>if price\<close>, as its token (the source formats it with two
  decimals). This path has no call of \<open>log_action\<close> of its own: its audit record is
  the hook's.
\<close>

definition upload_product_via_whatsapp ::
  "env \<Rightarrow> uuid \<Rightarrow> ustr \<Rightarrow> ustr \<Rightarrow> ustr \<Rightarrow> ustr \<Rightarrow> ustr option \<Rightarrow> world \<Rightarrow> (error + product) \<times> world" where
  "upload_product_via_whatsapp e new_id file_path local_image_url phone url caption w =
     (case seller_by_phone w phone of
        None \<Rightarrow> (Inl HTTP_404_NOT_FOUND, w)
      | Some s \<Rightarrow>
          (case parse_caption (isdecimal e) caption of
             (nm, pr) \<Rightarrow>
               if \<not> download_ok e url then (Inl HTTP_500_INTERNAL_SERVER_ERROR, w)
               else
                 (let w1 = w\<lparr>files := insert file_path (files w)\<rparr>;
                      p = new_product (s_id s) nm caption pr local_image_url file_path
                  in case insert_product e new_id p w1 of
                       Inl err \<Rightarrow> (Inl err, w1)
                     | Inr w2 \<Rightarrow>
                         (Inr p,
                          snd (send_upload_confirmation e phone nm new_id local_image_url
                                 (truthy_price e pr) w2)))))"

subsection \<open>Catalog slugs (routers/sellers.py, routers/webhook.py)\<close>

text \<open>
  \<^verbatim>\<open>
  slug = generate_catalog_slug()
  while db.query(Seller).filter(Seller.catalog_slug == slug).first():
      slug = generate_catalog_slug()
  \<close>
  The loop has no bound, so it is a partial function: \<open>None\<close> is the run that never
  leaves the loop. The result carries the position reached in the entropy source.
\<close>

partial_function (option) unique_slug ::
  "(nat \<Rightarrow> nat) \<Rightarrow> seller list \<Rightarrow> nat \<Rightarrow> (ustr \<times> nat) option" where
  "unique_slug rand ss k =
     (let slug = generate_catalog_slug rand k
      in if seller_by_slug ss slug \<noteq> None then unique_slug rand ss (k + 8)
         else Some (slug, k + 8))"

definition stuck_source :: "nat \<Rightarrow> nat" where
  "stuck_source k = 0"

subsection \<open>Webhook handlers (routers/webhook.py)\<close>

text \<open>
  \<open>confirm_product\<close> receives the identifier as text; \<open>product_uuid\<close> is the result
  of \<open>UUID(product_id)\<close>, \<open>None\<close> where it raises \<open>ValueError\<close>.
\<close>

definition confirm_product ::
  "env \<Rightarrow> uuid option \<Rightarrow> ustr \<Rightarrow> bool \<Rightarrow> world \<Rightarrow> (error + unit) \<times> world" where
  "confirm_product e product_uuid phone confirmed w =
     (case product_uuid of
        None \<Rightarrow> (Inr (), snd (send_text_message e phone InvalidProductId w))
      | Some pid \<Rightarrow>
          (case products w pid of
             None \<Rightarrow> (Inr (), snd (send_text_message e phone ProductNotFound w))
           | Some p \<Rightarrow>
               (let sel = seller_by_id w (p_seller_id p) in
                if confirmed then
                  (let w1 = w\<lparr>products := (products w)(pid \<mapsto> p\<lparr>is_active := True\<rparr>)\<rparr>;
                       w2 = snd (log_action e
                              (entry PRODUCT_CONFIRMED (Some (p_seller_id p)) (Some pid)
                                 [(''product_name'', JStr (name p))] None) w1)
                   in case sel of
                        None \<Rightarrow> (Inl AttributeError, w2)
                      | Some s \<Rightarrow>
                          (Inr (),
                           snd (send_product_added_confirmation e phone (name p)
                                  (CATALOG_BASE_URL e @ ascii ''/'' @ catalog_slug s) w2)))
                else
                  (let w1 = remove_image e (image_path p) w;
                       w2 = delete_product pid w1;
                       w3 = snd (log_action e
                              (entry PRODUCT_CANCELLED (map_option s_id sel) None
                                 [(''product_name'', JStr (name p))] None) w2)
                   in (Inr (), snd (send_text_message e phone (NotAdded (name p)) w3))))))"

definition auto_register_seller ::
  "env \<Rightarrow> (nat \<Rightarrow> nat) \<Rightarrow> uuid \<Rightarrow> ustr \<Rightarrow> world \<Rightarrow> ((error + seller) \<times> world) option" where
  "auto_register_seller e rand new_id phone w =
     (case unique_slug rand (sellers w) 0 of
        None \<Rightarrow> None
      | Some (slug, k) \<Rightarrow>
          (let s = \<lparr>s_id = new_id, phone_number = phone, s_name = None,
                    whatsapp_chat_id = Some phone, catalog_slug = slug, s_is_active = True\<rparr>
           in case insert_seller s w of
                Inl err \<Rightarrow> Some (Inl err, w)
              | Inr w1 \<Rightarrow>
                  (let w2 = snd (log_action e
                             (entry SELLER_REGISTERED (Some new_id) None
                                [(''phone_number'', JStr phone), (''catalog_slug'', JStr slug)]
                                None) w1);
                       w3 = snd (send_welcome_message e phone (s_name s)
                                   (CATALOG_BASE_URL e @ ascii ''/'' @ catalog_slug s) w2)
                   in Some (Inr s, w3))))"

text \<open>
  The part of \<open>handle_image_message\<close> after the seller is known. \<open>image_id\<close> is
  \<open>image_data.get("id")\<close>; \<open>new_id\<close>, \<open>file_path\<close> and \<open>local_image_url\<close> are the
  identifier and the file names that \<open>uuid4\<close> gives the new listing. The explicit
  record carries the price as a number, without a test; the prompt shows it under
  \<open>if price\<close>.
\<close>

definition intake ::
  "env \<Rightarrow> uuid \<Rightarrow> ustr \<Rightarrow> ustr \<Rightarrow> seller \<Rightarrow> ustr \<Rightarrow> ustr option \<Rightarrow> ustr option \<Rightarrow> world
   \<Rightarrow> (error + unit) \<times> world" where
  "intake e new_id file_path local_image_url s phone image_id caption w =
     (if image_id = None \<or> image_id = Some []
      then (Inr (), snd (send_text_message e phone CouldNotProcess w))
      else
        (let url = media_url e (case image_id of Some i \<Rightarrow> i | None \<Rightarrow> []) in
         if url = [] then (Inr (), snd (send_text_message e phone CouldNotDownload w))
         else
           (case parse_caption (isdecimal e) caption of
              (nm, pr) \<Rightarrow>
                if \<not> download_ok e url
                then (Inr (), snd (send_text_message e phone FailedToProcess w))
                else
                  (let w1 = w\<lparr>files := insert file_path (files w)\<rparr>;
                       p = new_product (s_id s) nm caption pr local_image_url file_path
                   in case insert_product e new_id p w1 of
                        Inl err \<Rightarrow> (Inl err, w1)
                      | Inr w2 \<Rightarrow>
                          (let w3 = snd (log_action e
                                     (entry PRODUCT_UPLOADED (Some (s_id s)) (Some new_id)
                                        [(''product_name'', JStr nm),
                                         (''price'', json_opt pr JNum)] None) w2)
                           in (Inr (),
                               snd (send_upload_confirmation e phone nm new_id
                                      local_image_url (truthy_price e pr) w3)))))))"

definition handle_image_message ::
  "env \<Rightarrow> (nat \<Rightarrow> nat) \<Rightarrow> uuid \<Rightarrow> uuid \<Rightarrow> ustr \<Rightarrow> ustr \<Rightarrow> ustr \<Rightarrow> ustr option \<Rightarrow> ustr option
   \<Rightarrow> world \<Rightarrow> ((error + unit) \<times> world) option" where
  "handle_image_message e rand new_seller_id new_id file_path local_image_url phone image_id
     caption w =
     (case seller_by_phone w phone of
        Some s \<Rightarrow> Some (intake e new_id file_path local_image_url s phone image_id caption w)
      | None \<Rightarrow>
          (case auto_register_seller e rand new_seller_id phone w of
             None \<Rightarrow> None
           | Some (Inl err, w1) \<Rightarrow> Some (Inl err, w1)
           | Some (Inr s, w1) \<Rightarrow>
               Some (intake e new_id file_path local_image_url s phone image_id caption w1)))"

section \<open>The lifecycle as the specification names it\<close>

text \<open>
  The source keeps no state field. A listing is ACTIVE when \<open>is_active\<close> is set; an
  inactive listing is REMOVED when it has an undo deadline, which is how
  \<open>Product.can_undo\<close> and \<open>restore_product\<close> tell it from a DRAFT that waits for
  its confirmation.
\<close>

datatype lifecycle = DRAFT | ACTIVE | REMOVED

definition state_of :: "product \<Rightarrow> lifecycle" where
  "state_of p =
     (if is_active p then ACTIVE else if can_undo_until p \<noteq> None then REMOVED else DRAFT)"

definition product_inv :: "product \<Rightarrow> bool" where
  "product_inv p \<longleftrightarrow>
     (can_undo_until p \<noteq> None) = (state_of p = REMOVED) \<and>
     (removed_at p \<noteq> None) = (state_of p = REMOVED)"

definition store_inv :: "world \<Rightarrow> bool" where
  "store_inv w \<longleftrightarrow> (\<forall>pid p. products w pid = Some p \<longrightarrow> product_inv p)"

definition active :: "world \<Rightarrow> uuid \<Rightarrow> bool" where
  "active w pid = (case products w pid of Some p \<Rightarrow> is_active p | None \<Rightarrow> False)"

definition removed :: "datetime \<Rightarrow> datetime \<Rightarrow> product \<Rightarrow> product" where
  "removed removed_now deadline p =
     p\<lparr>is_active := False, removed_at := Some removed_now, can_undo_until := Some deadline\<rparr>"

definition removed_entry :: "world \<Rightarrow> datetime \<Rightarrow> uuid \<Rightarrow> action_log" where
  "removed_entry w deadline pid =
     entry PRODUCT_REMOVED (map_option p_seller_id (products w pid)) (Some pid)
       [(''product_name'', JStr (case products w pid of Some p \<Rightarrow> name p | None \<Rightarrow> [])),
        (''undo_until'', JTime deadline)] None"

text \<open>What an operation does apart from the audit trail and the console.\<close>

definition business :: "world \<Rightarrow> seller list \<times> (uuid \<Rightarrow> product option) \<times> ustr set \<times> message list" where
  "business w = (sellers w, products w, files w, outbox w)"

section \<open>A small store for the examples\<close>

definition ascii_value :: "codepoint \<Rightarrow> nat" where
  "ascii_value c = c - 48"

text \<open>
  \<open>example_env\<close> is a store on one shared connection with naive times;
  \<open>postgres_env\<close> is the same environment on PostgreSQL.
\<close>

definition example_env :: env where
  "example_env =
     \<lparr>isdecimal = ascii_digit, decimal_value = ascii_value, isolated_sessions = False,
      aware_datetimes = False, numeric_checked = False,
      persist_ok = (\<lambda>l. True), delivers = (\<lambda>m. True),
      wamid = (\<lambda>m. None), media_url = (\<lambda>i. ascii ''https://cdn.example/img''),
      download_ok = (\<lambda>u. True), unlink_ok = (\<lambda>p. True),
      CATALOG_BASE_URL = ascii ''https://hustle.app/catalog''\<rparr>"

definition postgres_env :: env where
  "postgres_env =
     example_env\<lparr>isolated_sessions := True, aware_datetimes := True, numeric_checked := True\<rparr>"

definition failing_audit_env :: env where
  "failing_audit_env = example_env\<lparr>persist_ok := (\<lambda>l. False)\<rparr>"

definition example_seller :: seller where
  "example_seller =
     \<lparr>s_id = 10, phone_number = ascii ''15551234567'', s_name = None,
      whatsapp_chat_id = Some (ascii ''15551234567''), catalog_slug = ascii ''aaaaaaaa'',
      s_is_active = True\<rparr>"

definition example_product :: "string \<Rightarrow> bool \<Rightarrow> datetime option \<Rightarrow> datetime option \<Rightarrow> product" where
  "example_product nm act rem und =
     \<lparr>p_seller_id = 10, name = ascii nm, description = None, price = None,
      currency = ascii ''USD'', image_url = ascii ''/uploads/'' @ ascii nm,
      image_path = ascii ''uploads/'' @ ascii nm, is_active = act, removed_at = rem,
      can_undo_until = und\<rparr>"

text \<open>
  Listing 1 is ACTIVE, listing 2 is a DRAFT, listing 3 was removed at time 70 and may be
  restored until time 100.
\<close>

definition example_world :: world where
  "example_world =
     \<lparr>sellers = [example_seller],
      products = [1 \<mapsto> example_product ''shoes'' True None None,
                  2 \<mapsto> example_product ''watch'' False None None,
                  3 \<mapsto> example_product ''lamp'' False (Some 70) (Some 100)],
      action_logs = [],
      files = {ascii ''uploads/shoes'', ascii ''uploads/watch'', ascii ''uploads/lamp''},
      outbox = [],
      stdout = []\<rparr>"

definition retry_source :: "nat \<Rightarrow> nat" where
  "retry_source k = (if k < 8 then 0 else 1)"

definition example_clock :: "uuid \<Rightarrow> datetime" where
  "example_clock pid = 1000 + int pid"

text \<open>What the caller and the store see of a run: the result and the business state.\<close>

definition outcome ::
  "'a \<times> world \<Rightarrow> 'a \<times> seller list \<times> (uuid \<Rightarrow> product option) \<times> ustr set \<times> message list" where
  "outcome r = (fst r, business (snd r))"

text \<open>The records of one kind that name one listing.\<close>

definition records_of :: "action_kind \<Rightarrow> uuid \<Rightarrow> action_log list \<Rightarrow> action_log list" where
  "records_of k pid logs = filter (\<lambda>l. action_type l = k \<and> product_id l = Some pid) logs"

section \<open>Caption parsing: the scan against the specification\<close>

lemma number_shape:
  "(case after of
      d # a # b # _ \<Rightarrow> if d = 46 \<and> D a \<and> D b then Some (ds @ [d, a, b]) else Some ds
    | _ \<Rightarrow> Some ds) =
   Some (ds @ (if decimal_group D (take 3 after) then take 3 after else []))"
proof (cases after)
  case Nil
  then show ?thesis by (simp add: decimal_group_def)
next
  case (Cons d t1)
  show ?thesis
  proof (cases t1)
    case Nil
    with Cons show ?thesis by (simp add: decimal_group_def)
  next
    case (Cons a t2)
    note c2 = this
    show ?thesis
    proof (cases t2)
      case Nil
      with \<open>after = d # t1\<close> c2 show ?thesis by (simp add: decimal_group_def)
    next
      case (Cons b t3)
      with \<open>after = d # t1\<close> c2 show ?thesis by (simp add: decimal_group_def)
    qed
  qed
qed

lemma match_number_token:
  "match_number D s = (if takeWhile D s = [] then None else Some (number_token D s))"
  unfolding match_number_def number_token_def Let_def number_shape by simp

lemma match_number_Cons:
  "match_number D (x # r) = (if D x then Some (number_token D (x # r)) else None)"
  by (simp add: match_number_token)

lemma match_number_Nil: "match_number D [] = None"
  by (simp add: match_number_token)

lemma re_search_spec:
  assumes "\<And>x. currency_symbol x \<Longrightarrow> \<not> D x"
  shows "re_search D c i = map_option (\<lambda>(pre, tok). (i + length pre, tok)) (spec_find_token D c)"
proof (induction c arbitrary: i)
  case Nil
  show ?case by (simp add: spec_find_token_def)
next
  case (Cons x r)
  show ?case
  proof (cases "D x")
    case True
    with assms have "\<not> currency_symbol x" by blast
    with True show ?thesis
      by (simp add: match_price_def match_number_Cons spec_find_token_def)
  next
    case False
    note nd = this
    show ?thesis
    proof (cases "currency_symbol x \<and> r \<noteq> [] \<and> D (hd r)")
      case True
      then obtain y r' where r: "r = y # r'" and y: "D y" by (cases r) auto
      with True nd show ?thesis
        by (simp add: match_price_def match_number_Cons spec_find_token_def)
    next
      case False
      have mp: "match_price D (x # r) = None"
        using False nd by (cases r) (auto simp: match_price_def match_number_Cons match_number_Nil)
      show ?thesis
      proof (cases "dropWhile (\<lambda>x. \<not> D x) r = []")
        case True
        with nd mp Cons.IH[of "Suc i"] show ?thesis
          by (simp add: spec_find_token_def)
      next
        case dw: False
        show ?thesis
        proof (cases "takeWhile (\<lambda>x. \<not> D x) r = []")
          case True
          with dw obtain y r' where r: "r = y # r'" and y: "D y"
            by (cases r) (auto split: if_splits)
          with False have "\<not> currency_symbol x" by simp
          with nd mp r y Cons.IH[of "Suc i"] show ?thesis
            by (simp add: spec_find_token_def)
        next
          case tw: False
          with nd mp dw Cons.IH[of "Suc i"] show ?thesis
            by (simp add: spec_find_token_def Let_def)
        qed
      qed
    qed
  qed
qed

lemma rstrip_Nil_iff: "rstrip s = [] \<longleftrightarrow> (\<forall>x\<in>set s. isspace x)"
  by (simp add: rstrip_def dropWhile_eq_Nil_conv)

lemma rstrip_last: "rstrip s \<noteq> [] \<Longrightarrow> \<not> isspace (last (rstrip s))"
  unfolding rstrip_def
  by (metis hd_dropWhile last_rev rev_is_Nil_conv rev_rev_ident)

lemma rstrip_hd: "s \<noteq> [] \<Longrightarrow> \<not> isspace (hd s) \<Longrightarrow> rstrip s \<noteq> [] \<and> hd (rstrip s) = hd s"
proof (induction s rule: rev_induct)
  case Nil
  then show ?case by simp
next
  case (snoc x xs)
  show ?case
  proof (cases "isspace x")
    case False
    then show ?thesis by (simp add: rstrip_def)
  next
    case True
    then have eq: "rstrip (xs @ [x]) = rstrip xs" by (simp add: rstrip_def)
    from True snoc.prems have "xs \<noteq> []" by (cases xs) auto
    with snoc show ?thesis by (simp add: eq)
  qed
qed

lemma rstrip_id: "s = [] \<or> \<not> isspace (last s) \<Longrightarrow> rstrip s = s"
  by (cases s rule: rev_cases) (auto simp: rstrip_def)

lemma lstrip_id: "s = [] \<or> \<not> isspace (hd s) \<Longrightarrow> lstrip s = s"
  by (cases s) (auto simp: lstrip_def)

lemma lstrip_hd: "lstrip s \<noteq> [] \<Longrightarrow> \<not> isspace (hd (lstrip s))"
  unfolding lstrip_def by (rule hd_dropWhile)

lemma strip_shape:
  "strip s = [] \<or> (\<not> isspace (hd (strip s)) \<and> \<not> isspace (last (strip s)))"
proof (cases "lstrip s = []")
  case True
  then show ?thesis by (simp add: strip_def rstrip_def)
next
  case False
  then have "\<not> isspace (hd (lstrip s))" by (rule lstrip_hd)
  with False have "rstrip (lstrip s) \<noteq> [] \<and> hd (rstrip (lstrip s)) = hd (lstrip s)"
    by (simp add: rstrip_hd)
  with \<open>\<not> isspace (hd (lstrip s))\<close> show ?thesis
    by (simp add: strip_def rstrip_last)
qed

lemma strip_id: "s = [] \<or> (\<not> isspace (hd s) \<and> \<not> isspace (last s)) \<Longrightarrow> strip s = s"
  by (auto simp: strip_def lstrip_id rstrip_id)

lemma strip_untitled: "strip (sub_trailing_separator untitled) = untitled"
  by (simp add: strip_def lstrip_def rstrip_def sub_trailing_separator_def untitled_def
      ascii_def separator_def isspace_def)

lemma code_name_amended:
  assumes "\<not> lone_separator (strip pre)"
  shows "strip (sub_trailing_separator (if strip pre = [] then untitled else strip pre))
         = amended_name pre"
proof (cases "strip pre = []")
  case True
  then show ?thesis by (simp add: strip_untitled amended_name_def)
next
  case False
  define p where "p = strip pre"
  from False strip_shape[of pre] have hd: "\<not> isspace (hd p)" and la: "\<not> isspace (last p)"
    and ne: "p \<noteq> []" by (auto simp: p_def)
  have "strip (sub_trailing_separator p) =
        (let n = (if p \<noteq> [] \<and> separator (last p) then rstrip (butlast p) else p)
         in if n = [] then untitled else n)"
  proof (cases "separator (last p)")
    case True
    from assms ne True have two: "butlast p \<noteq> []"
      by (cases p rule: rev_cases) (auto simp: lone_separator_def p_def split: list.splits)
    then have hb: "hd (butlast p) = hd p"
      by (cases p) (auto split: if_splits)
    with hd two have r: "rstrip (butlast p) \<noteq> []" by (simp add: rstrip_hd)
    from hb hd two have "lstrip (butlast p) = butlast p" by (simp add: lstrip_id)
    then have s: "strip (butlast p) = rstrip (butlast p)" by (simp add: strip_def)
    from True ne have "sub_trailing_separator p = butlast p"
      by (simp add: sub_trailing_separator_def)
    with s r True ne show ?thesis by simp
  next
    case sep: False
    from la have "last p \<noteq> 10" by (auto simp: isspace_def)
    with sep have "sub_trailing_separator p = p"
      by (simp add: sub_trailing_separator_def)
    moreover from hd la have "strip p = p" by (simp add: strip_id)
    ultimately show ?thesis using sep ne by simp
  qed
  with False show ?thesis by (simp add: amended_name_def p_def)
qed

lemma spec_find_token_append:
  assumes "spec_find_token D c = Some (pre, tok)"
  shows "\<exists>r. c = pre @ r"
proof -
  define t where "t = takeWhile (\<lambda>x. \<not> D x) c"
  have c: "c = t @ dropWhile (\<lambda>x. \<not> D x) c" by (simp add: t_def)
  show ?thesis
  proof (cases "t \<noteq> [] \<and> currency_symbol (last t)")
    case True
    then have "t = butlast t @ [last t]" by simp
    with c have "c = butlast t @ ([last t] @ dropWhile (\<lambda>x. \<not> D x) c)"
      by (metis append_assoc)
    moreover from assms True have "pre = butlast t"
      by (auto simp: spec_find_token_def Let_def t_def split: if_splits)
    ultimately show ?thesis by blast
  next
    case False
    with assms have "pre = t"
      by (auto simp: spec_find_token_def Let_def t_def split: if_splits)
    with c show ?thesis by blast
  qed
qed

lemma spec_find_token_prefix:
  "spec_find_token D c = Some (pre, tok) \<Longrightarrow> take (length pre) c = pre"
  using spec_find_token_append[of D c pre tok] by auto

text \<open>
  What \<open>spec_find_token\<close> finds: nothing exactly in a caption without a digit;
  otherwise it cuts the caption into the text before the token, which has no digit, the
  currency symbol if one stands there, the numeric part, which starts with a digit, and
  the rest.
\<close>

lemma spec_find_token_None: "spec_find_token D c = None \<longleftrightarrow> (\<forall>x\<in>set c. \<not> D x)"
  by (simp add: spec_find_token_def Let_def dropWhile_eq_Nil_conv)

lemma number_token_prefix: "\<exists>rest. r = number_token D r @ rest"
proof -
  have r: "r = takeWhile D r @ dropWhile D r" by simp
  have d: "dropWhile D r = take 3 (dropWhile D r) @ drop 3 (dropWhile D r)" by simp
  show ?thesis
  proof (cases "decimal_group D (take 3 (dropWhile D r))")
    case True
    then have "number_token D r = takeWhile D r @ take 3 (dropWhile D r)"
      by (simp add: number_token_def)
    with r d have "r = number_token D r @ drop 3 (dropWhile D r)"
      by (metis append_assoc)
    then show ?thesis ..
  next
    case False
    then have "number_token D r = takeWhile D r" by (simp add: number_token_def)
    with r have "r = number_token D r @ dropWhile D r" by simp
    then show ?thesis ..
  qed
qed

lemma spec_find_token_shape:
  assumes "spec_find_token D c = Some (pre, tok)"
  shows "\<exists>cur rest. c = pre @ cur @ tok @ rest \<and>
           (cur = [] \<or> (\<exists>x. cur = [x] \<and> currency_symbol x)) \<and>
           (\<forall>x\<in>set pre. \<not> D x) \<and> tok \<noteq> [] \<and> D (hd tok)"
proof -
  define t where "t = takeWhile (\<lambda>x. \<not> D x) c"
  define r where "r = dropWhile (\<lambda>x. \<not> D x) c"
  have c: "c = t @ r" by (simp add: t_def r_def)
  from assms have rne: "r \<noteq> []" and tok: "tok = number_token D r"
    by (auto simp: spec_find_token_def Let_def r_def split: if_splits)
  have "\<not> (\<lambda>x. \<not> D x) (hd (dropWhile (\<lambda>x. \<not> D x) c))"
    using rne unfolding r_def by (rule hd_dropWhile)
  then have dh: "D (hd r)" by (simp add: r_def)
  obtain y r' where r: "r = y # r'" using rne by (cases r) auto
  with dh have "D y" by simp
  then have tne: "tok \<noteq> []" and th: "D (hd tok)"
    by (simp_all add: tok r number_token_def Let_def)
  obtain rest where rest: "r = tok @ rest" using number_token_prefix tok by blast
  have nod: "\<forall>x\<in>set t. \<not> D x" unfolding t_def by (auto dest: set_takeWhileD)
  show ?thesis
  proof (cases "t \<noteq> [] \<and> currency_symbol (last t)")
    case True
    with assms have pre: "pre = butlast t"
      by (auto simp: spec_find_token_def Let_def t_def split: if_splits)
    from True have "t = butlast t @ [last t]" by simp
    with c rest have "c = pre @ [last t] @ tok @ rest" by (metis pre append_assoc)
    moreover from nod pre have "\<forall>x\<in>set pre. \<not> D x" by (auto dest: in_set_butlastD)
    ultimately show ?thesis using True tne th by blast
  next
    case False
    with assms have pre: "pre = t"
      by (auto simp: spec_find_token_def Let_def t_def split: if_splits)
    with c rest have "c = pre @ [] @ tok @ rest" by simp
    with nod pre tne th show ?thesis by blast
  qed
qed

text \<open>
  Claim C3, as amended. For every caption and every digit class in which the three
  currency symbols are not digits: an absent or empty caption gives the name
  "Untitled Product" and no price; a caption without a price-like token gives its first 50
  characters as the name and no price; otherwise the price is the numeric part of the
  first price-like token, and the name is the text before that token, stripped of
  surrounding whitespace, then of at most one trailing separator (hyphen, en dash, em
  dash, colon) together with the whitespace before it, and "Untitled Product" when
  nothing is left. The statement leaves out the captions in which the text before the
  token is a lone separator.
\<close>

theorem parse_caption_amended:
  assumes "\<not> D 36" and "\<not> D 163" and "\<not> D 8364"
    and "\<not> lone_separator_before_price D caption"
  shows "parse_caption D caption = caption_spec amended_name D caption"
proof (cases caption)
  case None
  then show ?thesis by (simp add: parse_caption_def caption_spec_def)
next
  case (Some c)
  have cur: "\<And>x. currency_symbol x \<Longrightarrow> \<not> D x" using assms(1-3) by (auto simp: currency_symbol_def)
  show ?thesis
  proof (cases "spec_find_token D c")
    case None
    with Some show ?thesis
      by (simp add: parse_caption_def caption_spec_def re_search_spec[OF cur])
  next
    case (Some a)
    obtain pre tok where a: "a = (pre, tok)" by (cases a)
    from Some a have tk: "take (length pre) c = pre" by (simp add: spec_find_token_prefix)
    from assms(4) \<open>caption = Some c\<close> Some a have "\<not> lone_separator (strip pre)"
      by (simp add: lone_separator_before_price_def)
    then have nm: "strip (sub_trailing_separator (if strip pre = [] then untitled else strip pre))
         = amended_name pre" by (rule code_name_amended)
    have "re_search D c 0 = Some (length pre, tok)"
      using Some a by (simp add: re_search_spec[OF cur])
    then have "parse_caption D caption = (amended_name pre, Some tok)"
      unfolding parse_caption_def \<open>caption = Some c\<close> using nm tk
      by (auto simp: Let_def)
    moreover have "c \<noteq> []" using Some by (auto simp: spec_find_token_def)
    ultimately show ?thesis using Some a \<open>caption = Some c\<close>
      by (simp add: caption_spec_def)
  qed
qed

theorem parse_caption_amended_witness:
  "\<not> ascii_digit 36 \<and> \<not> ascii_digit 163 \<and> \<not> ascii_digit 8364 \<and>
   \<not> lone_separator_before_price ascii_digit (Some (ascii ''Red Shoes - $45.99 new'')) \<and>
   parse_caption ascii_digit (Some (ascii ''Red Shoes - $45.99 new'')) =
     (ascii ''Red Shoes'', Some (ascii ''45.99''))"
proof -
  have d: "\<not> ascii_digit 36" "\<not> ascii_digit 163" "\<not> ascii_digit 8364"
    by (simp_all add: ascii_digit_def)
  have l: "\<not> lone_separator_before_price ascii_digit (Some (ascii ''Red Shoes - $45.99 new''))"
    by (simp add: lone_separator_before_price_def spec_find_token_def number_token_def
        decimal_group_def lone_separator_def strip_def lstrip_def rstrip_def isspace_def
        currency_symbol_def ascii_def ascii_digit_def)
  have "parse_caption ascii_digit (Some (ascii ''Red Shoes - $45.99 new'')) =
        caption_spec amended_name ascii_digit (Some (ascii ''Red Shoes - $45.99 new''))"
    using d l by (rule parse_caption_amended)
  also have "\<dots> = (ascii ''Red Shoes'', Some (ascii ''45.99''))"
    by (simp add: caption_spec_def amended_name_def spec_find_token_def number_token_def
        decimal_group_def strip_def lstrip_def rstrip_def isspace_def separator_def
        currency_symbol_def ascii_def ascii_digit_def)
  finally show ?thesis using d l by simp
qed

text \<open>
  The claim as written fails where more than one separator ends the text before the
  price: the source removes one, the claim all of them.
\<close>

theorem parse_caption_counterexample:
  "parse_caption ascii_digit (Some (ascii ''Tee -- 5'')) = (ascii ''Tee -'', Some (ascii ''5'')) \<and>
   caption_spec claimed_name ascii_digit (Some (ascii ''Tee -- 5'')) =
     (ascii ''Tee'', Some (ascii ''5''))"
  by (simp add: parse_caption_def match_price_def match_number_def caption_spec_def
      claimed_name_def spec_find_token_def number_token_def decimal_group_def strip_def
      lstrip_def rstrip_def isspace_def separator_def sub_trailing_separator_def
      currency_symbol_def untitled_def ascii_def ascii_digit_def)

text \<open>
  Where the text before the price is a lone separator, the name comes out empty: the
  default is applied before the separator is removed, not after.
\<close>

lemma parse_caption_lone_separator:
  "parse_caption ascii_digit (Some (ascii ''- $5'')) = ([], Some (ascii ''5''))"
  by (simp add: parse_caption_def match_price_def match_number_def strip_def
      lstrip_def rstrip_def isspace_def separator_def sub_trailing_separator_def
      currency_symbol_def untitled_def ascii_def ascii_digit_def)

section \<open>Deep links\<close>

lemma hex_digit_safe: "n < 16 \<Longrightarrow> always_safe (hex_digit n)"
  by (auto simp: hex_digit_def always_safe_def)

lemma quote_byte_safe:
  assumes "b < 256" and "x \<in> set (quote_byte b)"
  shows "always_safe x \<or> x = 47 \<or> x = 37"
proof -
  from assms(1) have "b div 16 < 16" by simp
  moreover have "b mod 16 < 16" by simp
  ultimately have "always_safe (hex_digit (b div 16))" "always_safe (hex_digit (b mod 16))"
    by (simp_all add: hex_digit_safe)
  with assms(2) show ?thesis by (auto simp: quote_byte_def split: if_splits)
qed

lemma utf8_encode_bytes: "utf8_encode c = Some bs \<Longrightarrow> b \<in> set bs \<Longrightarrow> b < 256"
  by (auto simp: utf8_encode_def split: if_splits)

lemma quote_safe: "quote m = Inr q \<Longrightarrow> x \<in> set q \<Longrightarrow> always_safe x \<or> x = 47 \<or> x = 37"
proof (induction m arbitrary: q)
  case Nil
  then show ?case by simp
next
  case (Cons c s)
  from Cons.prems(1) obtain bs q' where bs: "utf8_encode c = Some bs" and q': "quote s = Inr q'"
    and q: "q = concat (map quote_byte bs) @ q'"
    by (auto split: option.splits sum.splits)
  from Cons.prems(2) q consider "x \<in> set (concat (map quote_byte bs))" | "x \<in> set q'" by auto
  then show ?case
  proof cases
    case 1
    then obtain b where "b \<in> set bs" "x \<in> set (quote_byte b)" by auto
    with bs show ?thesis using quote_byte_safe utf8_encode_bytes by blast
  next
    case 2
    with Cons.IH q' show ?thesis by blast
  qed
qed

text \<open>
  Claim C9, as amended. For every phone number and message: the phone number is reduced
  to its digits, and the digit 1 is put in front exactly when ten digits are left; for a
  message that is not empty and that UTF-8 can encode the link is
  \<open>https://wa.me/<digits>?text=<url-encoded text>\<close>, where the encoded text has only
  unreserved characters, slashes and percent signs; for an empty or absent message the
  link is \<open>https://wa.me/<digits>\<close>, with no \<open>?text=\<close> part.
\<close>

theorem generate_whatsapp_deep_link_amended:
  "format_phone_number D phone =
     (if length (filter D phone) = 10 then ascii ''1'' @ filter D phone else filter D phone) \<and>
   generate_whatsapp_deep_link D phone None =
     Inr (ascii ''https://wa.me/'' @ format_phone_number D phone) \<and>
   generate_whatsapp_deep_link D phone (Some []) =
     Inr (ascii ''https://wa.me/'' @ format_phone_number D phone) \<and>
   (m \<noteq> [] \<and> quote m = Inr q \<longrightarrow>
      generate_whatsapp_deep_link D phone (Some m) =
        Inr (ascii ''https://wa.me/'' @ format_phone_number D phone @ ascii ''?text='' @ q) \<and>
      (\<forall>x\<in>set q. always_safe x \<or> x = 47 \<or> x = 37))"
proof -
  have "\<forall>x\<in>set q. always_safe x \<or> x = 47 \<or> x = 37" if "quote m = Inr q"
    using that quote_safe by blast
  then show ?thesis
    by (simp add: generate_whatsapp_deep_link_def format_phone_number_def Let_def)
qed

theorem generate_whatsapp_deep_link_amended_witness:
  "ascii ''Hi there'' \<noteq> [] \<and> quote (ascii ''Hi there'') = Inr (ascii ''Hi%20there'') \<and>
   generate_whatsapp_deep_link ascii_digit (ascii ''(555) 123-4567'') (Some (ascii ''Hi there'')) =
     Inr (ascii ''https://wa.me/15551234567?text=Hi%20there'')"
proof -
  have q: "quote (ascii ''Hi there'') = Inr (ascii ''Hi%20there'')"
    by (simp add: ascii_def utf8_encode_def quote_byte_def always_safe_def hex_digit_def)
  have n: "ascii ''Hi there'' \<noteq> []" by (simp add: ascii_def)
  have f: "format_phone_number ascii_digit (ascii ''(555) 123-4567'') = ascii ''15551234567''"
    by (simp add: format_phone_number_def ascii_def ascii_digit_def)
  from generate_whatsapp_deep_link_amended
    [of ascii_digit "ascii ''(555) 123-4567''" "ascii ''Hi there''" "ascii ''Hi%20there''"] n q
  have "generate_whatsapp_deep_link ascii_digit (ascii ''(555) 123-4567'')
          (Some (ascii ''Hi there'')) =
        Inr (ascii ''https://wa.me/'' @ format_phone_number ascii_digit (ascii ''(555) 123-4567'')
             @ ascii ''?text='' @ ascii ''Hi%20there'')"
    by blast
  with f n q show ?thesis by (simp add: ascii_def)
qed

text \<open>The claim as written fails for the empty message: the link has no \<open>?text=\<close>.\<close>

theorem generate_whatsapp_deep_link_counterexample:
  "generate_whatsapp_deep_link ascii_digit (ascii ''5551234567'') (Some []) =
     Inr (ascii ''https://wa.me/15551234567'') \<and>
   generate_whatsapp_deep_link ascii_digit (ascii ''5551234567'') (Some []) \<noteq>
     Inr (ascii ''https://wa.me/15551234567?text='')"
  by (simp add: generate_whatsapp_deep_link_def format_phone_number_def ascii_def ascii_digit_def)


section \<open>Catalog slugs\<close>

lemma generate_catalog_slug_length: "length (generate_catalog_slug rand k) = 8"
  by (simp add: generate_catalog_slug_def)

lemma generate_catalog_slug_alphabet: "set (generate_catalog_slug rand k) \<subseteq> set alphabet"
proof -
  have "length alphabet = 36" by (simp add: alphabet_def ascii_def)
  then have "alphabet ! (n mod length alphabet) \<in> set alphabet" for n by simp
  then show ?thesis by (auto simp: generate_catalog_slug_def)
qed

lemma unique_slug_first_free:
  assumes "seller_by_slug ss (generate_catalog_slug rand (k + 8 * n)) = None"
    and "\<forall>i<n. seller_by_slug ss (generate_catalog_slug rand (k + 8 * i)) \<noteq> None"
  shows "unique_slug rand ss k = Some (generate_catalog_slug rand (k + 8 * n), k + 8 * Suc n)"
  using assms
proof (induction n arbitrary: k)
  case 0
  then show ?case by (subst unique_slug.simps) simp
next
  case (Suc n)
  from Suc.prems(2) have taken: "seller_by_slug ss (generate_catalog_slug rand k) \<noteq> None"
    by (metis add.right_neutral mult_zero_right zero_less_Suc)
  have "seller_by_slug ss (generate_catalog_slug rand (k + 8 + 8 * n)) = None"
    using Suc.prems(1) by (simp add: add.assoc)
  moreover have "\<forall>i<n. seller_by_slug ss (generate_catalog_slug rand (k + 8 + 8 * i)) \<noteq> None"
  proof (intro allI impI)
    fix i assume "i < n"
    then have "Suc i < Suc n" by simp
    with Suc.prems(2) have "seller_by_slug ss (generate_catalog_slug rand (k + 8 * Suc i)) \<noteq> None"
      by blast
    then show "seller_by_slug ss (generate_catalog_slug rand (k + 8 + 8 * i)) \<noteq> None"
      by (simp add: add.assoc)
  qed
  ultimately have "unique_slug rand ss (k + 8) =
      Some (generate_catalog_slug rand (k + 8 + 8 * n), k + 8 + 8 * Suc n)"
    by (rule Suc.IH)
  with taken show ?case by (subst unique_slug.simps) (simp add: add.assoc)
qed

lemma unique_slug_returns_free:
  assumes "unique_slug rand ss k = Some r"
  shows "\<exists>n. seller_by_slug ss (generate_catalog_slug rand (k + 8 * n)) = None"
proof (rule unique_slug.raw_induct
    [where P = "\<lambda>rand ss k r. \<exists>n. seller_by_slug ss (generate_catalog_slug rand (k + 8 * n)) = None",
     OF _ assms], goal_cases)
  case (1 f rand ss k r)
  show ?case
  proof (cases "seller_by_slug ss (generate_catalog_slug rand k) = None")
    case True
    then have "seller_by_slug ss (generate_catalog_slug rand (k + 8 * 0)) = None" by simp
    then show ?thesis by blast
  next
    case False
    with 1(2) have "f rand ss (k + 8) = Some r" by (simp add: Let_def)
    then obtain n where "seller_by_slug ss (generate_catalog_slug rand (k + 8 + 8 * n)) = None"
      using 1(1) by blast
    then have "seller_by_slug ss (generate_catalog_slug rand (k + 8 * Suc n)) = None"
      by (simp add: add.assoc)
    then show ?thesis by blast
  qed
qed

lemma unique_slug_stuck:
  assumes "\<forall>n. seller_by_slug ss (generate_catalog_slug rand (k + 8 * n)) \<noteq> None"
  shows "unique_slug rand ss k = None"
proof (cases "unique_slug rand ss k")
  case None
  then show ?thesis .
next
  case (Some r)
  then show ?thesis using unique_slug_returns_free assms by blast
qed

text \<open>
  Claim C8, as amended. Each attempt draws 8 characters of the alphabet
  \<open>a\<close>..\<open>z\<close>, \<open>0\<close>..\<open>9\<close>, and the loop retries on a collision with no cap on the
  number of attempts: it returns exactly when some attempt gives a slug that no seller
  of the store has, the result is the first such slug, 8 characters of the alphabet and
  absent from the store; when every attempt collides the loop never returns. (The
  source of the draws is an arbitrary sequence here; its strength and its distribution
  are not stated.)
\<close>

theorem unique_slug_amended:
  "(unique_slug rand ss k = Some (slug, k') \<longrightarrow>
      length slug = 8 \<and> set slug \<subseteq> set alphabet \<and> seller_by_slug ss slug = None \<and>
      (\<exists>n. slug = generate_catalog_slug rand (k + 8 * n) \<and> k' = k + 8 * Suc n \<and>
           (\<forall>i<n. seller_by_slug ss (generate_catalog_slug rand (k + 8 * i)) \<noteq> None))) \<and>
   ((\<exists>n. seller_by_slug ss (generate_catalog_slug rand (k + 8 * n)) = None) \<longrightarrow>
      unique_slug rand ss k \<noteq> None) \<and>
   ((\<forall>n. seller_by_slug ss (generate_catalog_slug rand (k + 8 * n)) \<noteq> None) \<longrightarrow>
      unique_slug rand ss k = None)"
proof (intro conjI impI)
  assume ex: "\<exists>n. seller_by_slug ss (generate_catalog_slug rand (k + 8 * n)) = None"
  define n where "n = (LEAST n. seller_by_slug ss (generate_catalog_slug rand (k + 8 * n)) = None)"
  from ex have free: "seller_by_slug ss (generate_catalog_slug rand (k + 8 * n)) = None"
    unfolding n_def by (rule LeastI_ex)
  have "\<forall>i<n. seller_by_slug ss (generate_catalog_slug rand (k + 8 * i)) \<noteq> None"
    unfolding n_def using not_less_Least by blast
  with free have "unique_slug rand ss k = Some (generate_catalog_slug rand (k + 8 * n), k + 8 * Suc n)"
    by (rule unique_slug_first_free)
  then show "unique_slug rand ss k \<noteq> None" by simp
next
  assume "\<forall>n. seller_by_slug ss (generate_catalog_slug rand (k + 8 * n)) \<noteq> None"
  then show "unique_slug rand ss k = None" by (rule unique_slug_stuck)
next
  assume r: "unique_slug rand ss k = Some (slug, k')"
  then have ex: "\<exists>n. seller_by_slug ss (generate_catalog_slug rand (k + 8 * n)) = None"
    by (rule unique_slug_returns_free)
  define n where "n = (LEAST n. seller_by_slug ss (generate_catalog_slug rand (k + 8 * n)) = None)"
  from ex have free: "seller_by_slug ss (generate_catalog_slug rand (k + 8 * n)) = None"
    unfolding n_def by (rule LeastI_ex)
  have least: "\<forall>i<n. seller_by_slug ss (generate_catalog_slug rand (k + 8 * i)) \<noteq> None"
    unfolding n_def using not_less_Least by blast
  with free have "unique_slug rand ss k = Some (generate_catalog_slug rand (k + 8 * n), k + 8 * Suc n)"
    by (rule unique_slug_first_free)
  with r have s: "slug = generate_catalog_slug rand (k + 8 * n)" and k: "k' = k + 8 * Suc n"
    by simp_all
  from s show "length slug = 8" by (simp add: generate_catalog_slug_length)
  from s show "set slug \<subseteq> set alphabet" by (simp add: generate_catalog_slug_alphabet)
  from s free show "seller_by_slug ss slug = None" by simp
  from s k least show "\<exists>n. slug = generate_catalog_slug rand (k + 8 * n) \<and> k' = k + 8 * Suc n \<and>
           (\<forall>i<n. seller_by_slug ss (generate_catalog_slug rand (k + 8 * i)) \<noteq> None)"
    by blast
qed

lemma stuck_source_slug: "generate_catalog_slug stuck_source k = ascii ''aaaaaaaa''"
  by (simp add: generate_catalog_slug_def stuck_source_def alphabet_def ascii_def upt_rec)

theorem unique_slug_amended_witness:
  "unique_slug retry_source [example_seller] 0 = Some (ascii ''bbbbbbbb'', 16) \<and>
   length (ascii ''bbbbbbbb'') = 8 \<and>
   seller_by_slug [example_seller] (ascii ''bbbbbbbb'') = None \<and>
   seller_by_slug [example_seller] (ascii ''aaaaaaaa'') \<noteq> None"
proof -
  have a: "generate_catalog_slug retry_source 0 = ascii ''aaaaaaaa''"
    by (simp add: generate_catalog_slug_def retry_source_def alphabet_def ascii_def upt_rec)
  have b: "generate_catalog_slug retry_source 8 = ascii ''bbbbbbbb''"
    by (simp add: generate_catalog_slug_def retry_source_def alphabet_def ascii_def upt_rec)
  have ta: "seller_by_slug [example_seller] (ascii ''aaaaaaaa'') \<noteq> None"
    by (simp add: seller_by_slug_def example_seller_def)
  have fb: "seller_by_slug [example_seller] (ascii ''bbbbbbbb'') = None"
    by (simp add: seller_by_slug_def example_seller_def ascii_def)
  have "\<exists>n. seller_by_slug [example_seller] (generate_catalog_slug retry_source (0 + 8 * n)) = None"
    using b fb by (intro exI[of _ 1]) simp
  with unique_slug_amended[of retry_source "[example_seller]" 0]
  have "unique_slug retry_source [example_seller] 0 \<noteq> None" by blast
  then obtain slug k' where r: "unique_slug retry_source [example_seller] 0 = Some (slug, k')"
    by auto
  with unique_slug_amended[of retry_source "[example_seller]" 0 slug k']
  obtain n where free: "seller_by_slug [example_seller] slug = None"
    and s: "slug = generate_catalog_slug retry_source (0 + 8 * n)" and k: "k' = 0 + 8 * Suc n"
    and taken: "\<forall>i<n. seller_by_slug [example_seller]
                  (generate_catalog_slug retry_source (0 + 8 * i)) \<noteq> None"
    and len: "length slug = 8"
    by blast
  have "n \<noteq> 0" using free s a ta by (cases n) auto
  moreover have "\<not> 1 < n"
  proof
    assume "1 < n"
    with taken have "seller_by_slug [example_seller]
        (generate_catalog_slug retry_source (0 + 8 * 1)) \<noteq> None" by blast
    with b fb show False by simp
  qed
  ultimately have "n = 1" by simp
  with s k b r len fb ta show ?thesis by simp
qed

text \<open>
  The claim as written fails where it promises a cap: on a source whose every draw
  collides the loop never returns, and raises nothing.
\<close>

theorem unique_slug_counterexample:
  "unique_slug stuck_source [example_seller] 0 = None"
proof (rule unique_slug_stuck)
  show "\<forall>n. seller_by_slug [example_seller]
          (generate_catalog_slug stuck_source (0 + 8 * n)) \<noteq> None"
    by (simp add: stuck_source_slug seller_by_slug_def example_seller_def)
qed

section \<open>Restoring a listing\<close>

lemma restore_product_aware:
  assumes "products w pid = Some p" and "\<not> is_active p" and "can_undo_until p = Some deadline"
    and "aware_datetimes e"
  shows "restore_product e utcnow pid w = (Inl TypeError, w)"
  using assms by (simp add: restore_product_def can_undo_def)

lemma restore_product_expired_naive:
  assumes "products w pid = Some p" and "state_of p = REMOVED"
    and "can_undo_until p = Some deadline" and "deadline \<le> utcnow"
    and "\<not> aware_datetimes e"
  shows "restore_product e utcnow pid w = (Inl HTTP_410_GONE, w)"
proof -
  from assms(2) have "\<not> is_active p" by (auto simp: state_of_def split: if_splits)
  moreover from assms(3,4,5) have "can_undo e p utcnow = Inr False" by (simp add: can_undo_def)
  ultimately show ?thesis using assms(1) by (simp add: restore_product_def)
qed

lemma restore_product_expired_unchanged:
  assumes "products w pid = Some p" and "state_of p = REMOVED"
    and "can_undo_until p = Some deadline" and "deadline \<le> utcnow"
  shows "snd (restore_product e utcnow pid w) = w"
proof (cases "aware_datetimes e")
  case True
  from assms(2) have "\<not> is_active p" by (auto simp: state_of_def split: if_splits)
  with assms(1,3) True show ?thesis by (simp add: restore_product_aware)
next
  case False
  with assms show ?thesis by (simp add: restore_product_expired_naive)
qed

text \<open>
  Claim C4 at a concrete input: listing 3 of the example store is REMOVED with the undo
  deadline 100, and restore is called at time 100 on PostgreSQL. The claim promises the
  Gone error. The call leaves the store as it was, but it does not answer 410: the
  comparison of the naive clock reading with the deadline, which the store reads back
  timezone-aware, raises \<open>TypeError\<close>. On a store with naive times the same call
  answers 410.
\<close>

theorem restore_product_expired_type_error:
  "products example_world 3 = Some (example_product ''lamp'' False (Some 70) (Some 100)) \<and>
   state_of (example_product ''lamp'' False (Some 70) (Some 100)) = REMOVED \<and>
   restore_product postgres_env 100 3 example_world = (Inl TypeError, example_world) \<and>
   restore_product example_env 100 3 example_world = (Inl HTTP_410_GONE, example_world)"
proof -
  have a: "products example_world 3 = Some (example_product ''lamp'' False (Some 70) (Some 100))"
    by (simp add: example_world_def)
  have b: "state_of (example_product ''lamp'' False (Some 70) (Some 100)) = REMOVED"
    by (simp add: state_of_def example_product_def)
  have c: "can_undo_until (example_product ''lamp'' False (Some 70) (Some 100)) = Some 100"
    "\<not> is_active (example_product ''lamp'' False (Some 70) (Some 100))"
    by (simp_all add: example_product_def)
  have p: "aware_datetimes postgres_env" by (simp add: postgres_env_def)
  have n: "\<not> aware_datetimes example_env" by (simp add: example_env_def)
  have d: "(100 :: int) \<le> 100" by simp
  from restore_product_aware[OF a c(2) c(1) p] restore_product_expired_naive[OF a b c(1) d n] a b
  show ?thesis by simp
qed

text \<open>
  Claim C10. For every listing that is inactive and has no undo deadline (a draft that
  waits for its confirmation), \<open>restore_product\<close> answers 410 Gone, not 404 Not Found,
  and leaves the whole store as it was.
\<close>

theorem restore_product_draft:
  assumes "products w pid = Some p" and "\<not> is_active p" and "can_undo_until p = None"
  shows "restore_product e utcnow pid w = (Inl HTTP_410_GONE, w)"
  using assms by (simp add: restore_product_def can_undo_def)

theorem restore_product_draft_witness:
  "products example_world 2 = Some (example_product ''watch'' False None None) \<and>
   \<not> is_active (example_product ''watch'' False None None) \<and>
   can_undo_until (example_product ''watch'' False None None) = None \<and>
   restore_product example_env 0 2 example_world = (Inl HTTP_410_GONE, example_world)"
proof -
  have a: "products example_world 2 = Some (example_product ''watch'' False None None)"
    by (simp add: example_world_def)
  have b: "\<not> is_active (example_product ''watch'' False None None)"
    by (simp add: example_product_def)
  have c: "can_undo_until (example_product ''watch'' False None None) = None"
    by (simp add: example_product_def)
  from restore_product_draft[OF a b c, of example_env 0] a b c show ?thesis by simp
qed

text \<open>
  Within the window, on a store with naive times, the same call succeeds and clears both
  timestamps.
\<close>

lemma restore_product_in_time:
  assumes "products w pid = Some p" and "\<not> is_active p"
    and "can_undo_until p = Some deadline" and "utcnow < deadline"
    and "\<not> aware_datetimes e"
  shows "fst (restore_product e utcnow pid w) =
           Inr (p\<lparr>is_active := True, removed_at := None, can_undo_until := None\<rparr>)"
    and "products (snd (restore_product e utcnow pid w)) =
           (products w)(pid \<mapsto> p\<lparr>is_active := True, removed_at := None, can_undo_until := None\<rparr>)"
  using assms
  by (simp_all add: restore_product_def can_undo_def Let_def log_action_def write_refused_def)

section \<open>The audit recorder and the fields it touches\<close>

lemma write_refused_frame [simp]:
  "sellers (write_refused w) = sellers w"
  "products (write_refused w) = products w"
  "files (write_refused w) = files w"
  "outbox (write_refused w) = outbox w"
  "action_logs (write_refused w) = action_logs w"
  by (simp_all add: write_refused_def)

lemma log_action_frame [simp]:
  "sellers (snd (log_action e l w)) = sellers w"
  "products (snd (log_action e l w)) = products w"
  "files (snd (log_action e l w)) = files w"
  "outbox (snd (log_action e l w)) = outbox w"
  by (simp_all add: log_action_def)

lemma log_action_logs:
  "action_logs (snd (log_action e l w)) = action_logs w @ filter (persist_ok e) [l]"
  by (simp add: log_action_def)

section \<open>Removing listings\<close>

lemma remove_loop_spec:
  assumes "distinct ids"
  shows "snd (remove_loop e t clk ids (w, n)) = n + length (filter (active w) ids) \<and>
     products (fst (remove_loop e t clk ids (w, n))) =
       (\<lambda>i. if i \<in> set ids \<and> active w i then map_option (removed (clk i) t) (products w i)
            else products w i) \<and>
     action_logs (fst (remove_loop e t clk ids (w, n))) =
       action_logs w @ filter (persist_ok e) (map (removed_entry w t) (filter (active w) ids)) \<and>
     sellers (fst (remove_loop e t clk ids (w, n))) = sellers w \<and>
     files (fst (remove_loop e t clk ids (w, n))) = files w \<and>
     outbox (fst (remove_loop e t clk ids (w, n))) = outbox w"
  using assms
proof (induction ids arbitrary: w n)
  case Nil
  then show ?case by simp
next
  case (Cons pid rest)
  from Cons.prems have fresh: "pid \<notin> set rest" and dist: "distinct rest" by simp_all
  show ?case
  proof (cases "active w pid")
    case False
    then have step: "remove_loop e t clk (pid # rest) (w, n) = remove_loop e t clk rest (w, n)"
      by (auto simp: active_def split: option.splits)
    from False Cons.IH[OF dist, of w n] show ?thesis
      unfolding step by (auto simp: fun_eq_iff)
  next
    case True
    then obtain p where p: "products w pid = Some p" and act: "is_active p"
      by (auto simp: active_def split: option.splits)
    define l where "l = removed_entry w t pid"
    define w2 where
      "w2 = snd (log_action e l (w\<lparr>products := (products w)(pid \<mapsto> removed (clk pid) t p)\<rparr>))"
    have step: "remove_loop e t clk (pid # rest) (w, n) = remove_loop e t clk rest (w2, n + 1)"
      using p act by (simp add: Let_def w2_def l_def removed_def removed_entry_def)
    have prods: "products w2 = (products w)(pid \<mapsto> removed (clk pid) t p)"
      by (simp add: w2_def)
    have logs: "action_logs w2 = action_logs w @ filter (persist_ok e) [l]"
      by (simp add: w2_def log_action_logs)
    have same: "sellers w2 = sellers w" "files w2 = files w" "outbox w2 = outbox w"
      by (simp_all add: w2_def)
    have act2: "active w2 i = active w i" if "i \<in> set rest" for i
      using that fresh prods by (auto simp: active_def)
    have ent2: "removed_entry w2 t i = removed_entry w t i" if "i \<in> set rest" for i
      using that fresh prods by (auto simp: removed_entry_def)
    have f: "filter (active w2) rest = filter (active w) rest"
      using act2 by (auto intro: filter_cong)
    have m: "map (removed_entry w2 t) (filter (active w) rest) =
             map (removed_entry w t) (filter (active w) rest)"
      using ent2 by (auto intro: map_cong)
    note ih = Cons.IH[OF dist, of w2 "n + 1"]
    have c1: "snd (remove_loop e t clk rest (w2, n + 1)) =
              n + length (filter (active w) (pid # rest))"
      using ih True f by simp
    have c2: "products (fst (remove_loop e t clk rest (w2, n + 1))) =
       (\<lambda>i. if i \<in> set (pid # rest) \<and> active w i
            then map_option (removed (clk i) t) (products w i) else products w i)"
    proof
      fix i
      show "products (fst (remove_loop e t clk rest (w2, n + 1))) i =
        (if i \<in> set (pid # rest) \<and> active w i
         then map_option (removed (clk i) t) (products w i) else products w i)"
      proof (cases "i = pid")
        case True
        with ih fresh prods p \<open>active w pid\<close> show ?thesis by simp
      next
        case False
        with ih prods act2[of i] show ?thesis by (cases "i \<in> set rest") simp_all
      qed
    qed
    have c3: "action_logs (fst (remove_loop e t clk rest (w2, n + 1))) =
       action_logs w @
       filter (persist_ok e) (map (removed_entry w t) (filter (active w) (pid # rest)))"
      using ih logs f m True by (simp add: l_def)
    from c1 c2 c3 ih same show ?thesis unfolding step by simp
  qed
qed

text \<open>
  Claim C6. For every list of distinct listing ids: each listing that is ACTIVE when the
  call starts becomes inactive with \<open>removed_at\<close> the clock reading taken for it and
  \<open>can_undo_until\<close> the reading at the start of the call plus 30 seconds; every other
  id of the list changes nothing; one PRODUCT_REMOVED record, with the listing and its
  seller, is written for each removed listing and for no other (the audit store keeps
  each one it accepts); the call returns the number of listings it removed and raises
  nothing.
\<close>

theorem remove_products_spec:
  assumes "distinct ids"
  shows "fst (remove_products e utcnow utcnow_at ids w) = Inr (length (filter (active w) ids)) \<and>
     products (snd (remove_products e utcnow utcnow_at ids w)) =
       (\<lambda>i. if i \<in> set ids \<and> active w i
            then map_option (removed (utcnow_at i) (utcnow + timedelta_seconds 30)) (products w i)
            else products w i) \<and>
     action_logs (snd (remove_products e utcnow utcnow_at ids w)) =
       action_logs w @
       filter (persist_ok e)
         (map (removed_entry w (utcnow + timedelta_seconds 30)) (filter (active w) ids)) \<and>
     sellers (snd (remove_products e utcnow utcnow_at ids w)) = sellers w \<and>
     files (snd (remove_products e utcnow utcnow_at ids w)) = files w \<and>
     outbox (snd (remove_products e utcnow utcnow_at ids w)) = outbox w"
  using remove_loop_spec[OF assms, of e "utcnow + timedelta_seconds 30" utcnow_at w 0]
  by (simp add: remove_products_def Let_def split_beta)

theorem remove_products_spec_witness:
  "distinct [1, 2, 3, 4 :: nat] \<and>
   fst (remove_products example_env 1000 example_clock [1, 2, 3, 4] example_world) = Inr 1 \<and>
   products (snd (remove_products example_env 1000 example_clock [1, 2, 3, 4] example_world)) 1 =
     Some (example_product ''shoes'' False (Some 1001) (Some 30001000)) \<and>
   products (snd (remove_products example_env 1000 example_clock [1, 2, 3, 4] example_world)) 2 =
     Some (example_product ''watch'' False None None) \<and>
   products (snd (remove_products example_env 1000 example_clock [1, 2, 3, 4] example_world)) 4 =
     None \<and>
   map action_type
     (action_logs (snd (remove_products example_env 1000 example_clock [1, 2, 3, 4] example_world))) =
     [PRODUCT_REMOVED] \<and>
   map product_id
     (action_logs (snd (remove_products example_env 1000 example_clock [1, 2, 3, 4] example_world))) =
     [Some 1]"
proof -
  have d: "distinct [1, 2, 3, 4 :: nat]" by simp
  have a: "filter (active example_world) [1, 2, 3, 4] = [1]"
    by (simp add: active_def example_world_def example_product_def)
  have a1: "active example_world 1" "\<not> active example_world 2" "\<not> active example_world 4"
    by (simp_all add: active_def example_world_def example_product_def)
  note spec = remove_products_spec[OF d, of example_env 1000 example_clock example_world]
  from spec a have r: "fst (remove_products example_env 1000 example_clock [1, 2, 3, 4]
      example_world) = Inr 1" by simp
  from spec a have l: "action_logs (snd (remove_products example_env 1000 example_clock
      [1, 2, 3, 4] example_world)) = [removed_entry example_world (1000 + timedelta_seconds 30) 1]"
    by (simp add: example_env_def example_world_def)
  from spec have p: "products (snd (remove_products example_env 1000 example_clock [1, 2, 3, 4]
      example_world)) =
    (\<lambda>i. if i \<in> set [1, 2, 3, 4] \<and> active example_world i
         then map_option (removed (example_clock i) (1000 + timedelta_seconds 30))
                (products example_world i)
         else products example_world i)" by blast
  have p1: "products (snd (remove_products example_env 1000 example_clock [1, 2, 3, 4]
      example_world)) 1 = Some (example_product ''shoes'' False (Some 1001) (Some 30001000))"
    unfolding p using a1
    by (simp add: example_world_def example_product_def removed_def example_clock_def
        timedelta_seconds_def)
  have p2: "products (snd (remove_products example_env 1000 example_clock [1, 2, 3, 4]
      example_world)) 2 = Some (example_product ''watch'' False None None)"
    unfolding p using a1 by (simp add: example_world_def)
  have p4: "products (snd (remove_products example_env 1000 example_clock [1, 2, 3, 4]
      example_world)) 4 = None"
    unfolding p using a1 by (simp add: example_world_def)
  from d r l p1 p2 p4 show ?thesis by (simp add: removed_entry_def entry_def)
qed

section \<open>What the operations do to the business state\<close>

lemma send_text_message_frame [simp]:
  "fst (send_text_message e to b w) = delivers e (Text (format_phone_number (isdecimal e) to) b)"
  "sellers (snd (send_text_message e to b w)) = sellers w"
  "products (snd (send_text_message e to b w)) = products w"
  "files (snd (send_text_message e to b w)) = files w"
  "outbox (snd (send_text_message e to b w)) =
     outbox w @ filter (delivers e) [Text (format_phone_number (isdecimal e) to) b]"
  by (simp_all add: send_text_message_def Let_def)

lemma send_image_message_frame [simp]:
  "fst (send_image_message e to u b w) =
     delivers e (Image (format_phone_number (isdecimal e) to) u b)"
  "sellers (snd (send_image_message e to u b w)) = sellers w"
  "products (snd (send_image_message e to u b w)) = products w"
  "files (snd (send_image_message e to u b w)) = files w"
  "outbox (snd (send_image_message e to u b w)) =
     outbox w @ filter (delivers e) [Image (format_phone_number (isdecimal e) to) u b]"
  by (simp_all add: send_image_message_def Let_def)

lemma send_interactive_buttons_frame [simp]:
  "fst (send_interactive_buttons e to b bs w) =
     delivers e (Buttons (format_phone_number (isdecimal e) to) b (take 3 bs))"
  "sellers (snd (send_interactive_buttons e to b bs w)) = sellers w"
  "products (snd (send_interactive_buttons e to b bs w)) = products w"
  "files (snd (send_interactive_buttons e to b bs w)) = files w"
  "outbox (snd (send_interactive_buttons e to b bs w)) =
     outbox w @ filter (delivers e) [Buttons (format_phone_number (isdecimal e) to) b (take 3 bs)]"
  by (simp_all add: send_interactive_buttons_def Let_def)

lemma send_upload_confirmation_frame [simp]:
  "sellers (snd (send_upload_confirmation e to n pid u pr w)) = sellers w"
  "products (snd (send_upload_confirmation e to n pid u pr w)) = products w"
  "files (snd (send_upload_confirmation e to n pid u pr w)) = files w"
  "outbox (snd (send_upload_confirmation e to n pid u pr w)) =
     outbox w @
     (if delivers e (Image (format_phone_number (isdecimal e) to) u (UploadCaption n pr))
      then Image (format_phone_number (isdecimal e) to) u (UploadCaption n pr) #
           filter (delivers e)
             [Buttons (format_phone_number (isdecimal e) to) (UploadPrompt n)
                [ConfirmAdd pid, CancelAdd pid]]
      else [])"
  by (simp_all add: send_upload_confirmation_def split_beta)

lemma send_product_added_confirmation_frame [simp]:
  "sellers (snd (send_product_added_confirmation e to n u w)) = sellers w"
  "products (snd (send_product_added_confirmation e to n u w)) = products w"
  "files (snd (send_product_added_confirmation e to n u w)) = files w"
  "outbox (snd (send_product_added_confirmation e to n u w)) =
     outbox w @ filter (delivers e) [Text (format_phone_number (isdecimal e) to) (ProductAdded n u)]"
  by (simp_all add: send_product_added_confirmation_def)

lemma remove_image_frame [simp]:
  "sellers (remove_image e path w) = sellers w"
  "products (remove_image e path w) = products w"
  "outbox (remove_image e path w) = outbox w"
  "action_logs (remove_image e path w) = action_logs w"
  "files (remove_image e path w) =
     (if path \<in> files w \<and> unlink_ok e path then files w - {path} else files w)"
  by (simp_all add: remove_image_def)

lemma delete_product_frame [simp]:
  "sellers (delete_product pid w) = sellers w"
  "products (delete_product pid w) = (products w)(pid := None)"
  "files (delete_product pid w) = files w"
  "outbox (delete_product pid w) = outbox w"
  "action_logs (delete_product pid w) = filter (\<lambda>l. product_id l \<noteq> Some pid) (action_logs w)"
  by (simp_all add: delete_product_def)

lemma log_product_insert_frame [simp]:
  "sellers (log_product_insert e pid p w) = sellers w"
  "products (log_product_insert e pid p w) = products w"
  "files (log_product_insert e pid p w) = files w"
  "outbox (log_product_insert e pid p w) = outbox w"
  by (simp_all add: log_product_insert_def)

lemma price_tests_persist [simp]:
  "truthy_price (e\<lparr>persist_ok := f\<rparr>) pr = truthy_price e pr"
  "price_overflows (e\<lparr>persist_ok := f\<rparr>) pr = price_overflows e pr"
  by (simp_all add: truthy_price_def price_is_zero_def price_overflows_def integer_part_def
      split: option.splits)

lemma seller_by_id_cong: "sellers w = sellers w' \<Longrightarrow> seller_by_id w sid = seller_by_id w' sid"
  by (simp add: seller_by_id_def)

lemma remove_loop_outcome:
  "business w = business w' \<Longrightarrow>
   snd (remove_loop e1 t clk ids (w, n)) = snd (remove_loop e2 t clk ids (w', n)) \<and>
   business (fst (remove_loop e1 t clk ids (w, n))) =
   business (fst (remove_loop e2 t clk ids (w', n)))"
proof (induction ids arbitrary: w w' n)
  case Nil
  then show ?case by simp
next
  case (Cons pid rest)
  from Cons.prems have eq: "products w = products w'" by (simp add: business_def)
  show ?case
  proof (cases "active w pid")
    case False
    with eq have "remove_loop e1 t clk (pid # rest) (w, n) = remove_loop e1 t clk rest (w, n)"
      "remove_loop e2 t clk (pid # rest) (w', n) = remove_loop e2 t clk rest (w', n)"
      by (auto simp: active_def split: option.splits)
    with Cons.IH[OF Cons.prems] show ?thesis by simp
  next
    case True
    then obtain p where p: "products w pid = Some p" and act: "is_active p"
      by (auto simp: active_def split: option.splits)
    define p' where "p' = p\<lparr>is_active := False, removed_at := Some (clk pid),
                        can_undo_until := Some t\<rparr>"
    define l where "l = entry PRODUCT_REMOVED (Some (p_seller_id p')) (Some pid)
                      [(''product_name'', JStr (name p')), (''undo_until'', JTime t)] None"
    define v where "v = snd (log_action e1 l (w\<lparr>products := (products w)(pid \<mapsto> p')\<rparr>))"
    define v' where "v' = snd (log_action e2 l (w'\<lparr>products := (products w')(pid \<mapsto> p')\<rparr>))"
    have s1: "remove_loop e1 t clk (pid # rest) (w, n) = remove_loop e1 t clk rest (v, n + 1)"
      using p act by (simp add: Let_def v_def l_def p'_def)
    have s2: "remove_loop e2 t clk (pid # rest) (w', n) = remove_loop e2 t clk rest (v', n + 1)"
      using p act eq by (simp add: Let_def v'_def l_def p'_def)
    have "business v = business v'"
      using Cons.prems by (simp add: v_def v'_def business_def)
    from Cons.IH[OF this] show ?thesis unfolding s1 s2 .
  qed
qed

text \<open>
  Claim C7. The audit recorder raises nothing: when the write is not kept it reports the
  failure on the console, returns \<open>None\<close> and leaves the sellers, the listings, the
  image files and the sent messages as they were. Hence restore, remove, confirm, cancel
  and intake return the same result and leave the same business state whatever the audit
  store does with the records (\<open>f\<close> is any other behaviour of the audit store).
\<close>

theorem log_action_never_aborts:
  "log_action e l w =
     (if persist_ok e l then (Some l, w\<lparr>action_logs := action_logs w @ [l]\<rparr>)
      else (None, w\<lparr>stdout := stdout w @ [ascii ''Failed to log action'']\<rparr>)) \<and>
   business (snd (log_action e l w)) = business w \<and>
   outcome (restore_product (e\<lparr>persist_ok := f\<rparr>) utcnow pid w) =
     outcome (restore_product e utcnow pid w) \<and>
   outcome (remove_products (e\<lparr>persist_ok := f\<rparr>) utcnow utcnow_at ids w) =
     outcome (remove_products e utcnow utcnow_at ids w) \<and>
   outcome (confirm_product_upload (e\<lparr>persist_ok := f\<rparr>) pid confirmed w) =
     outcome (confirm_product_upload e pid confirmed w) \<and>
   outcome (confirm_product (e\<lparr>persist_ok := f\<rparr>) product_uuid phone confirmed w) =
     outcome (confirm_product e product_uuid phone confirmed w) \<and>
   outcome (intake (e\<lparr>persist_ok := f\<rparr>) new_id file_path url s phone image_id caption w) =
     outcome (intake e new_id file_path url s phone image_id caption w)"
proof (intro conjI)
  show "log_action e l w =
     (if persist_ok e l then (Some l, w\<lparr>action_logs := action_logs w @ [l]\<rparr>)
      else (None, w\<lparr>stdout := stdout w @ [ascii ''Failed to log action'']\<rparr>))"
    by (simp add: log_action_def write_refused_def)
  show "business (snd (log_action e l w)) = business w"
    by (simp add: business_def)
  show "outcome (restore_product (e\<lparr>persist_ok := f\<rparr>) utcnow pid w) =
     outcome (restore_product e utcnow pid w)"
    by (simp add: outcome_def business_def restore_product_def can_undo_def Let_def
        split: option.splits)
  show "outcome (remove_products (e\<lparr>persist_ok := f\<rparr>) utcnow utcnow_at ids w) =
     outcome (remove_products e utcnow utcnow_at ids w)"
    using remove_loop_outcome[of w w "e\<lparr>persist_ok := f\<rparr>" "utcnow + timedelta_seconds 30"
        utcnow_at ids 0 e]
    by (simp add: outcome_def remove_products_def Let_def split_beta)
  show "outcome (confirm_product_upload (e\<lparr>persist_ok := f\<rparr>) pid confirmed w) =
     outcome (confirm_product_upload e pid confirmed w)"
    by (simp add: outcome_def business_def confirm_product_upload_def Let_def
        cong: seller_by_id_cong split: option.splits)
  show "outcome (confirm_product (e\<lparr>persist_ok := f\<rparr>) product_uuid phone confirmed w) =
     outcome (confirm_product e product_uuid phone confirmed w)"
    by (simp add: outcome_def business_def confirm_product_def Let_def
        cong: seller_by_id_cong split: option.splits)
  show "outcome (intake (e\<lparr>persist_ok := f\<rparr>) new_id file_path url s phone image_id caption w) =
     outcome (intake e new_id file_path url s phone image_id caption w)"
    by (simp add: outcome_def business_def intake_def insert_product_def Let_def split_beta
        split: option.splits sum.splits)
qed

theorem log_action_never_aborts_witness:
  "outcome (restore_product failing_audit_env 80 3 example_world) =
     outcome (restore_product example_env 80 3 example_world) \<and>
   fst (restore_product failing_audit_env 80 3 example_world) =
     Inr (example_product ''lamp'' True None None) \<and>
   products (snd (restore_product failing_audit_env 80 3 example_world)) 3 =
     Some (example_product ''lamp'' True None None) \<and>
   action_logs (snd (restore_product failing_audit_env 80 3 example_world)) = [] \<and>
   stdout (snd (restore_product failing_audit_env 80 3 example_world)) =
     [ascii ''Failed to log action'']"
proof -
  from log_action_never_aborts[of example_env _ example_world "\<lambda>l. False" 80 3]
  have o: "outcome (restore_product failing_audit_env 80 3 example_world) =
     outcome (restore_product example_env 80 3 example_world)"
    unfolding failing_audit_env_def by blast
  have r: "restore_product example_env 80 3 example_world =
     (Inr (example_product ''lamp'' True None None),
      example_world\<lparr>products := (products example_world)(3 \<mapsto> example_product ''lamp'' True None None),
        action_logs := [entry PRODUCT_RESTORED (Some 10) (Some 3)
           [(''product_name'', JStr (ascii ''lamp''))] None]\<rparr>)"
    by (simp add: restore_product_def can_undo_def log_action_def example_world_def
        example_product_def example_env_def Let_def)
  from o r have "fst (restore_product failing_audit_env 80 3 example_world) =
     Inr (example_product ''lamp'' True None None)"
    and "products (snd (restore_product failing_audit_env 80 3 example_world)) 3 =
     Some (example_product ''lamp'' True None None)"
    by (simp_all add: outcome_def business_def)
  moreover have "action_logs (snd (restore_product failing_audit_env 80 3 example_world)) = []"
    "stdout (snd (restore_product failing_audit_env 80 3 example_world)) =
       [ascii ''Failed to log action'']"
    by (simp_all add: restore_product_def can_undo_def log_action_def write_refused_def
        example_world_def example_product_def example_env_def failing_audit_env_def Let_def)
  ultimately show ?thesis using o by simp
qed

section \<open>Confirming and cancelling\<close>

text \<open>
  Claim C2, as amended. The only precondition of confirm and of cancel is that the
  listing exists; neither looks at its state. Confirm sets \<open>is_active\<close> on every
  listing that exists and changes nothing else of it (a DRAFT becomes ACTIVE, an ACTIVE
  listing stays ACTIVE, a REMOVED listing becomes active and keeps its two timestamps)
  and deletes no file. Cancel deletes the record of every listing that exists, whatever
  its state, and its image file when the file is there and the file system lets it go.
  For an identifier that no listing has, both leave listings and files as they are, and
  the endpoint answers 404 with the store unchanged. This holds for the webhook handler
  \<open>confirm_product\<close> and for the endpoint \<open>confirm_product_upload\<close>.
\<close>

theorem confirm_cancel_amended:
  "(products w pid = Some p \<longrightarrow>
      products (snd (confirm_product e (Some pid) phone True w)) =
        (products w)(pid \<mapsto> p\<lparr>is_active := True\<rparr>) \<and>
      files (snd (confirm_product e (Some pid) phone True w)) = files w \<and>
      products (snd (confirm_product e (Some pid) phone False w)) = (products w)(pid := None) \<and>
      files (snd (confirm_product e (Some pid) phone False w)) =
        (if image_path p \<in> files w \<and> unlink_ok e (image_path p)
         then files w - {image_path p} else files w) \<and>
      products (snd (confirm_product_upload e pid True w)) =
        (products w)(pid \<mapsto> p\<lparr>is_active := True\<rparr>) \<and>
      files (snd (confirm_product_upload e pid True w)) = files w \<and>
      products (snd (confirm_product_upload e pid False w)) = (products w)(pid := None) \<and>
      files (snd (confirm_product_upload e pid False w)) =
        (if image_path p \<in> files w \<and> unlink_ok e (image_path p)
         then files w - {image_path p} else files w)) \<and>
   (products w pid = None \<longrightarrow>
      products (snd (confirm_product e (Some pid) phone confirmed w)) = products w \<and>
      files (snd (confirm_product e (Some pid) phone confirmed w)) = files w \<and>
      confirm_product_upload e pid confirmed w = (Inl HTTP_404_NOT_FOUND, w))"
  by (simp add: confirm_product_def confirm_product_upload_def Let_def split: option.splits)

theorem confirm_cancel_amended_witness:
  "products example_world 2 = Some (example_product ''watch'' False None None) \<and>
   products (snd (confirm_product example_env (Some 2) (ascii ''15551234567'') True example_world)) 2 =
     Some (example_product ''watch'' True None None) \<and>
   products (snd (confirm_product example_env (Some 2) (ascii ''15551234567'') False example_world)) 2 =
     None \<and>
   files (snd (confirm_product example_env (Some 2) (ascii ''15551234567'') False example_world)) =
     {ascii ''uploads/shoes'', ascii ''uploads/lamp''} \<and>
   products example_world 5 = None \<and>
   confirm_product_upload example_env 5 True example_world = (Inl HTTP_404_NOT_FOUND, example_world)"
proof -
  have a: "products example_world 2 = Some (example_product ''watch'' False None None)"
    by (simp add: example_world_def)
  have b: "products example_world 5 = None" by (simp add: example_world_def)
  note t = confirm_cancel_amended[of example_world 2 "example_product ''watch'' False None None"
      example_env "ascii ''15551234567''"]
  from t a have c: "products (snd (confirm_product example_env (Some 2) (ascii ''15551234567'')
      True example_world)) =
      (products example_world)(2 \<mapsto> (example_product ''watch'' False None None)\<lparr>is_active := True\<rparr>)"
    by blast
  from t a have d: "products (snd (confirm_product example_env (Some 2) (ascii ''15551234567'')
      False example_world)) = (products example_world)(2 := None)"
    by blast
  from t a have f: "files (snd (confirm_product example_env (Some 2) (ascii ''15551234567'')
      False example_world)) =
      (if image_path (example_product ''watch'' False None None) \<in> files example_world \<and>
          unlink_ok example_env (image_path (example_product ''watch'' False None None))
       then files example_world - {image_path (example_product ''watch'' False None None)}
       else files example_world)"
    by blast
  have g: "confirm_product_upload example_env 5 True example_world =
      (Inl HTTP_404_NOT_FOUND, example_world)"
    using confirm_cancel_amended[of example_world 5 _ example_env _ True] b by blast
  have f': "files (snd (confirm_product example_env (Some 2) (ascii ''15551234567'')
      False example_world)) = {ascii ''uploads/shoes'', ascii ''uploads/lamp''}"
    unfolding f by (auto simp: example_world_def example_product_def example_env_def ascii_def)
  from a b c d f' g show ?thesis by (simp add: example_product_def)
qed

text \<open>
  The claim as written fails for listings that are not drafts: cancel deletes the ACTIVE
  listing 1, and confirm makes the REMOVED listing 3 active.
\<close>

theorem confirm_cancel_counterexample:
  "products example_world 1 = Some (example_product ''shoes'' True None None) \<and>
   state_of (example_product ''shoes'' True None None) = ACTIVE \<and>
   products (snd (confirm_product example_env (Some 1) (ascii ''15551234567'') False example_world)) 1 =
     None \<and>
   products example_world 3 = Some (example_product ''lamp'' False (Some 70) (Some 100)) \<and>
   state_of (example_product ''lamp'' False (Some 70) (Some 100)) = REMOVED \<and>
   products (snd (confirm_product example_env (Some 3) (ascii ''15551234567'') True example_world)) 3 =
     Some (example_product ''lamp'' True (Some 70) (Some 100))"
  by (simp add: confirm_product_def Let_def example_world_def example_product_def state_of_def
      split: option.splits)

section \<open>The timestamps and the state\<close>

lemma store_inv_same: "products w' = products w \<Longrightarrow> store_inv w \<Longrightarrow> store_inv w'"
  by (simp add: store_inv_def)

lemma store_inv_update:
  "products w' = (products w)(pid \<mapsto> p) \<Longrightarrow> product_inv p \<Longrightarrow> store_inv w \<Longrightarrow> store_inv w'"
  by (simp add: store_inv_def)

lemma store_inv_delete:
  "products w' = (products w)(pid := None) \<Longrightarrow> store_inv w \<Longrightarrow> store_inv w'"
  by (simp add: store_inv_def)

lemma store_inv_lookup: "store_inv w \<Longrightarrow> products w pid = Some p \<Longrightarrow> product_inv p"
  by (auto simp: store_inv_def)

lemma new_product_inv: "product_inv (new_product sid nm d pr url path)"
  by (simp add: product_inv_def state_of_def new_product_def)

lemma removed_inv: "product_inv (removed t d p)"
  by (simp add: product_inv_def state_of_def removed_def)

lemma restored_inv:
  "product_inv (p\<lparr>is_active := True, removed_at := None, can_undo_until := None\<rparr>)"
  by (simp add: product_inv_def state_of_def)

lemma confirmed_inv:
  "product_inv p \<Longrightarrow> state_of p \<noteq> REMOVED \<Longrightarrow> product_inv (p\<lparr>is_active := True\<rparr>)"
  by (auto simp: product_inv_def state_of_def split: if_splits)

lemma remove_loop_inv:
  "store_inv w \<Longrightarrow> store_inv (fst (remove_loop e t clk ids (w, n)))"
proof (induction ids arbitrary: w n)
  case Nil
  then show ?case by simp
next
  case (Cons pid rest)
  show ?case
  proof (cases "active w pid")
    case False
    then have "remove_loop e t clk (pid # rest) (w, n) = remove_loop e t clk rest (w, n)"
      by (auto simp: active_def split: option.splits)
    with Cons show ?thesis by simp
  next
    case True
    then obtain p where p: "products w pid = Some p" and act: "is_active p"
      by (auto simp: active_def split: option.splits)
    define l where "l = removed_entry w t pid"
    define w2 where
      "w2 = snd (log_action e l (w\<lparr>products := (products w)(pid \<mapsto> removed (clk pid) t p)\<rparr>))"
    have step: "remove_loop e t clk (pid # rest) (w, n) = remove_loop e t clk rest (w2, n + 1)"
      using p act by (simp add: Let_def w2_def l_def removed_def removed_entry_def)
    have "products w2 = (products w)(pid \<mapsto> removed (clk pid) t p)" by (simp add: w2_def)
    then have "store_inv w2" using removed_inv Cons.prems by (rule store_inv_update)
    then show ?thesis unfolding step by (rule Cons.IH)
  qed
qed

lemma intake_products:
  "products (snd (intake e new_id fp url s phone image_id caption w)) = products w \<or>
   (\<exists>nm pr. products (snd (intake e new_id fp url s phone image_id caption w)) =
      (products w)(new_id \<mapsto> new_product (s_id s) nm caption pr url fp))"
  by (auto simp: intake_def insert_product_def Let_def split_beta split: option.splits)

lemma intake_inv:
  assumes "store_inv w"
  shows "store_inv (snd (intake e new_id fp url s phone image_id caption w))"
  using intake_products[of e new_id fp url s phone image_id caption w] assms
  by (auto intro: store_inv_same store_inv_update new_product_inv)

lemma upload_product_via_whatsapp_products:
  "products (snd (upload_product_via_whatsapp e new_id fp url phone u caption w)) = products w \<or>
   (\<exists>sid nm pr. products (snd (upload_product_via_whatsapp e new_id fp url phone u caption w)) =
      (products w)(new_id \<mapsto> new_product sid nm caption pr url fp))"
  by (auto simp: upload_product_via_whatsapp_def insert_product_def Let_def split_beta
      split: option.splits)

lemma insert_seller_products: "insert_seller s w = Inr w1 \<Longrightarrow> products w1 = products w"
  by (auto simp: insert_seller_def split: if_splits)

lemma auto_register_seller_products:
  assumes "auto_register_seller e rand new_id phone w = Some (r, w1)"
  shows "products w1 = products w"
proof -
  from assms obtain slug k where "unique_slug rand (sellers w) 0 = Some (slug, k)"
    by (auto simp: auto_register_seller_def split: option.splits)
  with assms show ?thesis
    by (auto simp: auto_register_seller_def Let_def send_welcome_message_def
        split: sum.splits dest: insert_seller_products)
qed

lemma handle_image_message_inv:
  assumes "store_inv w"
    and "handle_image_message e rand new_seller_id new_id fp url phone image_id caption w = Some r"
  shows "store_inv (snd r)"
proof (cases "seller_by_phone w phone")
  case (Some s)
  with assms(2) have "r = intake e new_id fp url s phone image_id caption w"
    by (simp add: handle_image_message_def)
  with assms(1) show ?thesis by (simp add: intake_inv)
next
  case None
  with assms(2) obtain a w1 where reg: "auto_register_seller e rand new_seller_id phone w = Some (a, w1)"
    by (auto simp: handle_image_message_def split: option.splits)
  then have "products w1 = products w" by (rule auto_register_seller_products)
  then have inv1: "store_inv w1" using assms(1) by (rule store_inv_same)
  show ?thesis
  proof (cases a)
    case (Inl err)
    with None reg assms(2) have "r = (Inl err, w1)" by (simp add: handle_image_message_def)
    with inv1 show ?thesis by simp
  next
    case (Inr s)
    with None reg assms(2) have "r = intake e new_id fp url s phone image_id caption w1"
      by (simp add: handle_image_message_def)
    with inv1 show ?thesis by (simp add: intake_inv)
  qed
qed

text \<open>
  Claim C5, as amended. The invariant is that a listing has an undo deadline exactly when
  it is REMOVED, and a removal time exactly when it is REMOVED. Intake (by the webhook
  and by the endpoint), cancel, remove and restore keep it for every listing of the
  store. Confirm keeps it when the listing it is called on is not REMOVED; called on a
  REMOVED listing it sets \<open>is_active\<close> and leaves both timestamps set, which breaks
  the invariant.
\<close>

theorem store_inv_preserved_amended:
  assumes "store_inv w"
  shows "store_inv (snd (intake e new_id fp url s phone image_id caption w)) \<and>
     store_inv (snd (upload_product_via_whatsapp e new_id fp url phone u caption w)) \<and>
     (handle_image_message e rand new_seller_id new_id fp url phone image_id caption w = Some r
        \<longrightarrow> store_inv (snd r)) \<and>
     store_inv (snd (confirm_product e product_uuid phone False w)) \<and>
     store_inv (snd (confirm_product_upload e pid False w)) \<and>
     store_inv (snd (remove_products e utcnow utcnow_at ids w)) \<and>
     store_inv (snd (restore_product e utcnow pid w)) \<and>
     store_inv (snd (confirm_product e None phone True w)) \<and>
     ((case products w pid of Some p \<Rightarrow> state_of p \<noteq> REMOVED | None \<Rightarrow> True) \<longrightarrow>
        store_inv (snd (confirm_product e (Some pid) phone True w)) \<and>
        store_inv (snd (confirm_product_upload e pid True w)))"
proof (intro conjI impI)
  show "store_inv (snd (intake e new_id fp url s phone image_id caption w))"
    using assms by (rule intake_inv)
  show "store_inv (snd (upload_product_via_whatsapp e new_id fp url phone u caption w))"
    using upload_product_via_whatsapp_products[of e new_id fp url phone u caption w] assms
    by (auto intro: store_inv_same store_inv_update new_product_inv)
  show "store_inv (snd r)"
    if "handle_image_message e rand new_seller_id new_id fp url phone image_id caption w = Some r"
    using assms that by (rule handle_image_message_inv)
  show "store_inv (snd (confirm_product e product_uuid phone False w))"
    using assms
    by (auto simp: confirm_product_def Let_def split: option.splits
        intro: store_inv_same store_inv_delete)
  show "store_inv (snd (confirm_product_upload e pid False w))"
    using assms
    by (auto simp: confirm_product_upload_def Let_def split: option.splits
        intro: store_inv_same store_inv_delete)
  show "store_inv (snd (remove_products e utcnow utcnow_at ids w))"
    using remove_loop_inv[OF assms, of e "utcnow + timedelta_seconds 30" utcnow_at ids 0]
    by (simp add: remove_products_def Let_def split_beta)
  show "store_inv (snd (restore_product e utcnow pid w))"
    using assms
    by (auto simp: restore_product_def Let_def split: option.splits sum.splits
        intro!: store_inv_update[where w = w] restored_inv)
  show "store_inv (snd (confirm_product e None phone True w))"
    using assms by (auto simp: confirm_product_def intro: store_inv_same)
next
  assume st: "case products w pid of Some p \<Rightarrow> state_of p \<noteq> REMOVED | None \<Rightarrow> True"
  show "store_inv (snd (confirm_product e (Some pid) phone True w))"
  proof (cases "products w pid")
    case None
    then show ?thesis using assms by (auto simp: confirm_product_def intro: store_inv_same)
  next
    case (Some p)
    with st assms have "product_inv (p\<lparr>is_active := True\<rparr>)"
      by (auto intro: confirmed_inv dest: store_inv_lookup)
    moreover have "products (snd (confirm_product e (Some pid) phone True w)) =
        (products w)(pid \<mapsto> p\<lparr>is_active := True\<rparr>)"
      using Some by (simp add: confirm_product_def Let_def split: option.splits)
    ultimately show ?thesis using assms by (auto intro: store_inv_update)
  qed
  show "store_inv (snd (confirm_product_upload e pid True w))"
  proof (cases "products w pid")
    case None
    then show ?thesis using assms by (simp add: confirm_product_upload_def)
  next
    case (Some p)
    with st assms have "product_inv (p\<lparr>is_active := True\<rparr>)"
      by (auto intro: confirmed_inv dest: store_inv_lookup)
    moreover have "products (snd (confirm_product_upload e pid True w)) =
        (products w)(pid \<mapsto> p\<lparr>is_active := True\<rparr>)"
      using Some by (simp add: confirm_product_upload_def Let_def split: option.splits)
    ultimately show ?thesis using assms by (auto intro: store_inv_update)
  qed
qed

lemma example_world_inv: "store_inv example_world"
  by (auto simp: store_inv_def example_world_def product_inv_def state_of_def example_product_def
      split: if_splits)

theorem store_inv_preserved_amended_witness:
  "store_inv example_world \<and>
   products example_world 2 = Some (example_product ''watch'' False None None) \<and>
   state_of (example_product ''watch'' False None None) = DRAFT \<and>
   store_inv (snd (confirm_product example_env (Some 2) (ascii ''15551234567'') True example_world)) \<and>
   store_inv (snd (confirm_product example_env (Some 2) (ascii ''15551234567'') False example_world)) \<and>
   store_inv (snd (remove_products example_env 1000 example_clock [1, 2, 3] example_world)) \<and>
   store_inv (snd (restore_product example_env 80 3 example_world))"
proof -
  have p: "products example_world 2 = Some (example_product ''watch'' False None None)"
    by (simp add: example_world_def)
  have s: "state_of (example_product ''watch'' False None None) = DRAFT"
    by (simp add: state_of_def example_product_def)
  from p s have c: "case products example_world 2 of Some p \<Rightarrow> state_of p \<noteq> REMOVED | None \<Rightarrow> True"
    by simp
  note t = store_inv_preserved_amended[OF example_world_inv, where e = example_env
      and phone = "ascii ''15551234567''"]
  from t[where product_uuid = "Some 2"]
  have a: "store_inv (snd (confirm_product example_env (Some 2) (ascii ''15551234567'') False
      example_world))" by blast
  from t[where pid = 2] c
  have b: "store_inv (snd (confirm_product example_env (Some 2) (ascii ''15551234567'') True
      example_world))" by blast
  from t[where utcnow = 1000 and utcnow_at = example_clock and ids = "[1, 2, 3]"]
  have d: "store_inv (snd (remove_products example_env 1000 example_clock [1, 2, 3] example_world))"
    by blast
  from t[where pid = 3 and utcnow = 80]
  have r: "store_inv (snd (restore_product example_env 80 3 example_world))" by blast
  from example_world_inv p s a b d r show ?thesis by simp
qed

text \<open>
  The claim as written fails for confirm: called on the REMOVED listing 3 it leaves an
  active listing that still has its removal time and its undo deadline.
\<close>

theorem store_inv_counterexample:
  "store_inv example_world \<and>
   products (snd (confirm_product example_env (Some 3) (ascii ''15551234567'') True example_world)) 3 =
     Some (example_product ''lamp'' True (Some 70) (Some 100)) \<and>
   \<not> store_inv (snd (confirm_product example_env (Some 3) (ascii ''15551234567'') True example_world))"
proof -
  have p: "products (snd (confirm_product example_env (Some 3) (ascii ''15551234567'') True
      example_world)) 3 = Some (example_product ''lamp'' True (Some 70) (Some 100))"
    by (simp add: confirm_product_def Let_def example_world_def example_product_def
        split: option.splits)
  have "\<not> product_inv (example_product ''lamp'' True (Some 70) (Some 100))"
    by (simp add: product_inv_def state_of_def example_product_def)
  with p have "\<not> store_inv (snd (confirm_product example_env (Some 3) (ascii ''15551234567'')
      True example_world))"
    using store_inv_lookup by blast
  with p example_world_inv show ?thesis by simp
qed

section \<open>Audit records of the transitions\<close>

lemma records_of_append [simp]:
  "records_of k pid (xs @ ys) = records_of k pid xs @ records_of k pid ys"
  by (simp add: records_of_def)

lemma records_of_list [simp]:
  "records_of k pid [] = []"
  "records_of k pid (l # ls) =
     (if action_type l = k \<and> product_id l = Some pid then l # records_of k pid ls
      else records_of k pid ls)"
  by (simp_all add: records_of_def)

lemma records_of_message_logs [simp]:
  "records_of PRODUCT_UPLOADED pid (action_logs (snd (send_image_message e to u b w))) =
     records_of PRODUCT_UPLOADED pid (action_logs w)"
  "records_of PRODUCT_UPLOADED pid (action_logs (snd (send_interactive_buttons e to b bs w))) =
     records_of PRODUCT_UPLOADED pid (action_logs w)"
  by (simp_all add: send_image_message_def send_interactive_buttons_def Let_def log_action_def
      entry_def)

lemma records_of_upload_confirmation [simp]:
  "records_of PRODUCT_UPLOADED pid
     (action_logs (snd (send_upload_confirmation e to n new_id u pr w))) =
   records_of PRODUCT_UPLOADED pid (action_logs w)"
  by (simp add: send_upload_confirmation_def split_beta)

lemma records_of_write_refused [simp]:
  "records_of k pid (action_logs (write_refused w)) = records_of k pid (action_logs w)"
  by simp

text \<open>
  The PRODUCT_UPLOADED records of an intake. The endpoint leaves the record to the
  \<open>after_insert\<close> hook; the webhook handler calls \<open>log_action\<close> itself after the
  commit, and the hook runs as well. Where sessions are isolated the hook's write is
  refused, so the endpoint writes no record and the handler one; on a shared connection
  the endpoint writes one and the handler two.
\<close>

lemma intake_uploaded_records:
  assumes "image_id = Some i" and "i \<noteq> []" and "media_url e i \<noteq> []"
    and "download_ok e (media_url e i)" and "products w new_id = None"
    and "parse_caption (isdecimal e) caption = (nm, pr)"
    and "\<not> (numeric_checked e \<and> price_overflows e pr)"
  shows "records_of PRODUCT_UPLOADED new_id
           (action_logs (snd (intake e new_id fp url s phone image_id caption w))) =
         records_of PRODUCT_UPLOADED new_id (action_logs w) @
         (if isolated_sessions e then []
          else filter (persist_ok e)
            [entry PRODUCT_UPLOADED (Some (s_id s)) (Some new_id)
               [(''product_name'', JStr nm), (''price'', json_opt (truthy_price e pr) JStr)]
               None]) @
         filter (persist_ok e)
           [entry PRODUCT_UPLOADED (Some (s_id s)) (Some new_id)
              [(''product_name'', JStr nm), (''price'', json_opt pr JNum)] None]"
proof -
  from assms(7) have ins: "insert_product e new_id p w' =
      (case products w' new_id of
         Some other \<Rightarrow> Inl IntegrityError
       | None \<Rightarrow> Inr (log_product_insert e new_id p (w'\<lparr>products := (products w')(new_id \<mapsto> p)\<rparr>)))"
    if "price p = pr" for p w'
    using that by (auto simp: insert_product_def)
  show ?thesis
    using assms(1-6)
    by (simp add: intake_def ins log_product_insert_def Let_def log_action_logs
        new_product_def entry_def)
qed

lemma upload_product_via_whatsapp_uploaded_records:
  assumes "seller_by_phone w phone = Some s" and "download_ok e u"
    and "products w new_id = None" and "parse_caption (isdecimal e) caption = (nm, pr)"
    and "\<not> (numeric_checked e \<and> price_overflows e pr)"
  shows "records_of PRODUCT_UPLOADED new_id
           (action_logs (snd (upload_product_via_whatsapp e new_id fp url phone u caption w))) =
         records_of PRODUCT_UPLOADED new_id (action_logs w) @
         (if isolated_sessions e then []
          else filter (persist_ok e)
            [entry PRODUCT_UPLOADED (Some (s_id s)) (Some new_id)
               [(''product_name'', JStr nm), (''price'', json_opt (truthy_price e pr) JStr)]
               None])"
    and "products (snd (upload_product_via_whatsapp e new_id fp url phone u caption w)) new_id =
         Some (new_product (s_id s) nm caption pr url fp)"
proof -
  from assms(5) have ins: "insert_product e new_id p w' =
      (case products w' new_id of
         Some other \<Rightarrow> Inl IntegrityError
       | None \<Rightarrow> Inr (log_product_insert e new_id p (w'\<lparr>products := (products w')(new_id \<mapsto> p)\<rparr>)))"
    if "price p = pr" for p w'
    using that by (auto simp: insert_product_def)
  show "records_of PRODUCT_UPLOADED new_id
           (action_logs (snd (upload_product_via_whatsapp e new_id fp url phone u caption w))) =
         records_of PRODUCT_UPLOADED new_id (action_logs w) @
         (if isolated_sessions e then []
          else filter (persist_ok e)
            [entry PRODUCT_UPLOADED (Some (s_id s)) (Some new_id)
               [(''product_name'', JStr nm), (''price'', json_opt (truthy_price e pr) JStr)]
               None])"
    using assms(1-4)
    by (simp add: upload_product_via_whatsapp_def ins log_product_insert_def
        Let_def log_action_logs new_product_def entry_def)
  show "products (snd (upload_product_via_whatsapp e new_id fp url phone u caption w)) new_id =
         Some (new_product (s_id s) nm caption pr url fp)"
    using assms(1-4)
    by (simp add: upload_product_via_whatsapp_def ins log_product_insert_def
        Let_def new_product_def)
qed

lemma example_caption:
  "parse_caption ascii_digit (Some (ascii ''Red Shoes $45.99'')) =
     (ascii ''Red Shoes'', Some (ascii ''45.99''))"
  by (simp add: parse_caption_def match_price_def match_number_def strip_def lstrip_def
      rstrip_def isspace_def separator_def sub_trailing_separator_def currency_symbol_def
      untitled_def ascii_def ascii_digit_def)

lemma example_price:
  "\<not> price_overflows postgres_env (Some (ascii ''45.99''))"
  "\<not> price_overflows example_env (Some (ascii ''45.99''))"
  "truthy_price example_env (Some (ascii ''45.99'')) = Some (ascii ''45.99'')"
  by (simp_all add: price_overflows_def integer_part_def truthy_price_def price_is_zero_def
      postgres_env_def example_env_def ascii_def ascii_digit_def ascii_value_def)

text \<open>
  Claim C1 at a concrete input: the endpoint \<open>upload_product_via_whatsapp\<close> on
  PostgreSQL, called for the registered seller of the example store with the caption
  "Red Shoes $45.99", an image that downloads and the fresh identifier 7, the audit
  store keeping every write it is given. The intake succeeds, the DRAFT listing 7 is
  stored, and the audit trail holds no PRODUCT_UPLOADED record for it, where the claim
  promises exactly one: the only write is the hook's, and it is refused and reported on
  the console.
\<close>

theorem upload_product_via_whatsapp_logs_nothing:
  "products (snd (upload_product_via_whatsapp postgres_env 7 (ascii ''uploads/new.jpg'')
      (ascii ''/uploads/new.jpg'') (ascii ''15551234567'') (ascii ''https://cdn.example/img'')
      (Some (ascii ''Red Shoes $45.99'')) example_world)) 7 =
     Some (new_product 10 (ascii ''Red Shoes'') (Some (ascii ''Red Shoes $45.99''))
       (Some (ascii ''45.99'')) (ascii ''/uploads/new.jpg'') (ascii ''uploads/new.jpg'')) \<and>
   state_of (new_product 10 (ascii ''Red Shoes'') (Some (ascii ''Red Shoes $45.99''))
       (Some (ascii ''45.99'')) (ascii ''/uploads/new.jpg'') (ascii ''uploads/new.jpg'')) = DRAFT \<and>
   records_of PRODUCT_UPLOADED 7
     (action_logs (snd (upload_product_via_whatsapp postgres_env 7 (ascii ''uploads/new.jpg'')
        (ascii ''/uploads/new.jpg'') (ascii ''15551234567'') (ascii ''https://cdn.example/img'')
        (Some (ascii ''Red Shoes $45.99'')) example_world))) = [] \<and>
   persist_ok postgres_env
     (entry PRODUCT_UPLOADED (Some 10) (Some 7)
        [(''product_name'', JStr (ascii ''Red Shoes'')), (''price'', JStr (ascii ''45.99''))] None)"
proof -
  have s: "seller_by_phone example_world (ascii ''15551234567'') = Some example_seller"
    by (simp add: seller_by_phone_def example_world_def example_seller_def)
  have c: "parse_caption (isdecimal postgres_env) (Some (ascii ''Red Shoes $45.99'')) =
      (ascii ''Red Shoes'', Some (ascii ''45.99''))"
    using example_caption by (simp add: postgres_env_def example_env_def)
  have d: "download_ok postgres_env (ascii ''https://cdn.example/img'')"
    by (simp add: postgres_env_def example_env_def)
  have f: "products example_world 7 = None" "action_logs example_world = []"
    by (simp_all add: example_world_def)
  have o: "\<not> (numeric_checked postgres_env \<and>
      price_overflows postgres_env (Some (ascii ''45.99'')))"
    using example_price(1) by simp
  have i: "isolated_sessions postgres_env" by (simp add: postgres_env_def)
  have k: "persist_ok postgres_env l" for l by (simp add: postgres_env_def example_env_def)
  note r = upload_product_via_whatsapp_uploaded_records[OF s d f(1) c o,
      of "ascii ''uploads/new.jpg''" "ascii ''/uploads/new.jpg''"]
  have st: "state_of (new_product 10 (ascii ''Red Shoes'') (Some (ascii ''Red Shoes $45.99''))
       (Some (ascii ''45.99'')) (ascii ''/uploads/new.jpg'') (ascii ''uploads/new.jpg'')) = DRAFT"
    by (simp add: state_of_def new_product_def)
  from r(1) f(2) i have "records_of PRODUCT_UPLOADED 7
     (action_logs (snd (upload_product_via_whatsapp postgres_env 7 (ascii ''uploads/new.jpg'')
        (ascii ''/uploads/new.jpg'') (ascii ''15551234567'') (ascii ''https://cdn.example/img'')
        (Some (ascii ''Red Shoes $45.99'')) example_world))) = []"
    by simp
  moreover from r(2) have "products (snd (upload_product_via_whatsapp postgres_env 7
      (ascii ''uploads/new.jpg'') (ascii ''/uploads/new.jpg'') (ascii ''15551234567'')
      (ascii ''https://cdn.example/img'') (Some (ascii ''Red Shoes $45.99'')) example_world)) 7 =
     Some (new_product 10 (ascii ''Red Shoes'') (Some (ascii ''Red Shoes $45.99''))
       (Some (ascii ''45.99'')) (ascii ''/uploads/new.jpg'') (ascii ''uploads/new.jpg''))"
    by (simp add: example_seller_def)
  ultimately show ?thesis using st k by simp
qed

text \<open>
  The webhook handler at the same caption: one record on PostgreSQL, two on a shared
  connection.
\<close>

lemma handle_image_message_uploaded_records:
  "handle_image_message example_env stuck_source 11 7 (ascii ''uploads/new.jpg'')
     (ascii ''/uploads/new.jpg'') (ascii ''15551234567'') (Some (ascii ''media-1''))
     (Some (ascii ''Red Shoes $45.99'')) example_world =
   Some (intake example_env 7 (ascii ''uploads/new.jpg'') (ascii ''/uploads/new.jpg'')
     example_seller (ascii ''15551234567'') (Some (ascii ''media-1''))
     (Some (ascii ''Red Shoes $45.99'')) example_world)"
  "records_of PRODUCT_UPLOADED 7
     (action_logs (snd (intake example_env 7 (ascii ''uploads/new.jpg'') (ascii ''/uploads/new.jpg'')
        example_seller (ascii ''15551234567'') (Some (ascii ''media-1''))
        (Some (ascii ''Red Shoes $45.99'')) example_world))) =
     [entry PRODUCT_UPLOADED (Some 10) (Some 7)
        [(''product_name'', JStr (ascii ''Red Shoes'')), (''price'', JStr (ascii ''45.99''))] None,
      entry PRODUCT_UPLOADED (Some 10) (Some 7)
        [(''product_name'', JStr (ascii ''Red Shoes'')), (''price'', JNum (ascii ''45.99''))] None]"
  "records_of PRODUCT_UPLOADED 7
     (action_logs (snd (intake postgres_env 7 (ascii ''uploads/new.jpg'') (ascii ''/uploads/new.jpg'')
        example_seller (ascii ''15551234567'') (Some (ascii ''media-1''))
        (Some (ascii ''Red Shoes $45.99'')) example_world))) =
     [entry PRODUCT_UPLOADED (Some 10) (Some 7)
        [(''product_name'', JStr (ascii ''Red Shoes'')), (''price'', JNum (ascii ''45.99''))] None]"
proof -
  have s: "seller_by_phone example_world (ascii ''15551234567'') = Some example_seller"
    by (simp add: seller_by_phone_def example_world_def example_seller_def)
  then show "handle_image_message example_env stuck_source 11 7 (ascii ''uploads/new.jpg'')
     (ascii ''/uploads/new.jpg'') (ascii ''15551234567'') (Some (ascii ''media-1''))
     (Some (ascii ''Red Shoes $45.99'')) example_world =
   Some (intake example_env 7 (ascii ''uploads/new.jpg'') (ascii ''/uploads/new.jpg'')
     example_seller (ascii ''15551234567'') (Some (ascii ''media-1''))
     (Some (ascii ''Red Shoes $45.99'')) example_world)"
    by (simp add: handle_image_message_def)
  have i: "ascii ''media-1'' \<noteq> []" by (simp add: ascii_def)
  have f: "products example_world 7 = None" "action_logs example_world = []"
    by (simp_all add: example_world_def)
  have c: "parse_caption (isdecimal example_env) (Some (ascii ''Red Shoes $45.99'')) =
      (ascii ''Red Shoes'', Some (ascii ''45.99''))"
    using example_caption by (simp add: example_env_def)
  have m: "media_url example_env (ascii ''media-1'') \<noteq> []"
    "download_ok example_env (media_url example_env (ascii ''media-1''))"
    by (simp_all add: example_env_def ascii_def)
  have o: "\<not> (numeric_checked example_env \<and>
      price_overflows example_env (Some (ascii ''45.99'')))"
    by (simp add: example_env_def)
  have e: "\<not> isolated_sessions example_env" "persist_ok example_env = (\<lambda>l. True)"
    by (simp_all add: example_env_def)
  from intake_uploaded_records[OF refl i m f(1) c o, of "ascii ''uploads/new.jpg''"
      "ascii ''/uploads/new.jpg''" example_seller "ascii ''15551234567''"] f(2) e example_price(3)
  show "records_of PRODUCT_UPLOADED 7
     (action_logs (snd (intake example_env 7 (ascii ''uploads/new.jpg'') (ascii ''/uploads/new.jpg'')
        example_seller (ascii ''15551234567'') (Some (ascii ''media-1''))
        (Some (ascii ''Red Shoes $45.99'')) example_world))) =
     [entry PRODUCT_UPLOADED (Some 10) (Some 7)
        [(''product_name'', JStr (ascii ''Red Shoes'')), (''price'', JStr (ascii ''45.99''))] None,
      entry PRODUCT_UPLOADED (Some 10) (Some 7)
        [(''product_name'', JStr (ascii ''Red Shoes'')), (''price'', JNum (ascii ''45.99''))] None]"
    by (simp add: json_opt_def example_seller_def)
  have c': "parse_caption (isdecimal postgres_env) (Some (ascii ''Red Shoes $45.99'')) =
      (ascii ''Red Shoes'', Some (ascii ''45.99''))"
    using example_caption by (simp add: postgres_env_def example_env_def)
  have m': "media_url postgres_env (ascii ''media-1'') \<noteq> []"
    "download_ok postgres_env (media_url postgres_env (ascii ''media-1''))"
    by (simp_all add: postgres_env_def example_env_def ascii_def)
  have o': "\<not> (numeric_checked postgres_env \<and>
      price_overflows postgres_env (Some (ascii ''45.99'')))"
    using example_price(1) by simp
  have e': "isolated_sessions postgres_env" "persist_ok postgres_env = (\<lambda>l. True)"
    by (simp_all add: postgres_env_def example_env_def)
  from intake_uploaded_records[OF refl i m' f(1) c' o', of "ascii ''uploads/new.jpg''"
      "ascii ''/uploads/new.jpg''" example_seller "ascii ''15551234567''"] f(2) e'
  show "records_of PRODUCT_UPLOADED 7
     (action_logs (snd (intake postgres_env 7 (ascii ''uploads/new.jpg'') (ascii ''/uploads/new.jpg'')
        example_seller (ascii ''15551234567'') (Some (ascii ''media-1''))
        (Some (ascii ''Red Shoes $45.99'')) example_world))) =
     [entry PRODUCT_UPLOADED (Some 10) (Some 7)
        [(''product_name'', JStr (ascii ''Red Shoes'')), (''price'', JNum (ascii ''45.99''))] None]"
    by (simp add: json_opt_def example_seller_def)
qed

text \<open>
  The other transitions call the recorder once, after the commit or for a row that is
  committed: confirm with the listing and its seller, cancel with the seller only (the
  listing is gone, and with it the records that named it), restore with the listing and
  its seller.
\<close>

lemma confirm_product_log:
  assumes "products w pid = Some p" and "seller_by_id w (p_seller_id p) = Some s"
  shows "filter (\<lambda>l. action_type l \<noteq> WHATSAPP_MESSAGE_SENT \<and> action_type l \<noteq> ERROR_OCCURRED)
           (action_logs (snd (confirm_product e (Some pid) phone True w))) =
         filter (\<lambda>l. action_type l \<noteq> WHATSAPP_MESSAGE_SENT \<and> action_type l \<noteq> ERROR_OCCURRED)
           (action_logs w) @
         filter (persist_ok e)
           [entry PRODUCT_CONFIRMED (Some (p_seller_id p)) (Some pid)
              [(''product_name'', JStr (name p))] None]"
  using assms
  by (simp add: confirm_product_def Let_def send_product_added_confirmation_def
      send_text_message_def log_action_def entry_def)

lemma cancel_product_log:
  assumes "products w pid = Some p"
  shows "filter (\<lambda>l. action_type l \<noteq> WHATSAPP_MESSAGE_SENT \<and> action_type l \<noteq> ERROR_OCCURRED)
           (action_logs (snd (confirm_product e (Some pid) phone False w))) =
         filter (\<lambda>l. action_type l \<noteq> WHATSAPP_MESSAGE_SENT \<and> action_type l \<noteq> ERROR_OCCURRED)
           (filter (\<lambda>l. product_id l \<noteq> Some pid) (action_logs w)) @
         filter (persist_ok e)
           [entry PRODUCT_CANCELLED (map_option s_id (seller_by_id w (p_seller_id p))) None
              [(''product_name'', JStr (name p))] None]"
  using assms
  by (simp add: confirm_product_def Let_def send_text_message_def log_action_def entry_def
      delete_product_def remove_image_def seller_by_id_def)

lemma restore_product_log:
  assumes "products w pid = Some p" and "\<not> is_active p"
    and "can_undo_until p = Some deadline" and "utcnow < deadline"
    and "\<not> aware_datetimes e"
  shows "action_logs (snd (restore_product e utcnow pid w)) =
         action_logs w @
         filter (persist_ok e)
           [entry PRODUCT_RESTORED (Some (p_seller_id p)) (Some pid)
              [(''product_name'', JStr (name p))] None]"
  using assms by (simp add: restore_product_def can_undo_def Let_def log_action_logs)

text \<open>
  The two tests of the price at work: a price of zero is left out of the prompt and of
  the hook's record, and a price of eleven integer digits is refused by PostgreSQL at
  the insert, so that no listing is stored.
\<close>

lemma price_tests_examples:
  "truthy_price example_env (Some (ascii ''0.00'')) = None"
  "truthy_price example_env (Some (ascii ''0.50'')) = Some (ascii ''0.50'')"
  "price_overflows postgres_env (Some (ascii ''12345678901''))"
  "\<not> price_overflows postgres_env (Some (ascii ''9999999999.99''))"
  by (simp_all add: price_overflows_def integer_part_def truthy_price_def price_is_zero_def
      postgres_env_def example_env_def ascii_def ascii_digit_def ascii_value_def)

lemma insert_product_price_overflow:
  "insert_product postgres_env 7
     (new_product 10 nm d (Some (ascii ''12345678901'')) u f) w = Inl DataError"
  using price_tests_examples(3)
  by (simp add: insert_product_def new_product_def postgres_env_def)

end
